theory Spec2Isabelle
  imports Complex_Main
begin

section \<open>Data model\<close>

text \<open>
  The library is TypeScript; every \<^verbatim>\<open>number\<close> is modelled as a \<^typ>\<open>real\<close>.
  The model therefore agrees with the program wherever no rounding, \<^verbatim>\<open>NaN\<close> or
  \<^verbatim>\<open>Infinity\<close> arises; grid dimensions and body ids, which the program only uses as
  whole numbers, are \<^typ>\<open>int\<close>.

  Bodies are objects shared by reference between the world's body set, the grid's
  partitions, the pairs and the contacts. A body reference is an address, and the
  body objects live in a store mapping every address to the current field values.
  Each body constructs its own \<^verbatim>\<open>Vector2\<close> and \<^verbatim>\<open>AABB\<close> objects, so these are
  fields by value.
\<close>

type_synonym ref = nat
type_synonym wref = nat

record Vector2 =
  x :: real
  y :: real

definition dot :: "Vector2 \<Rightarrow> Vector2 \<Rightarrow> real" where
  "dot this normal = x this * x normal + y this * y normal"

definition lengthV :: "Vector2 \<Rightarrow> real" where
  "lengthV this = sqrt (x this * x this + y this * y this)"

definition normalize :: "Vector2 \<Rightarrow> Vector2" where
  "normalize this =
     (let len = lengthV this
      in \<lparr>x = x this / len, y = y this / len\<rparr>)"

record AABB =
  minP :: Vector2
  maxP :: Vector2

text \<open>
  \<^verbatim>\<open>Circle\<close> is the only subclass of \<^verbatim>\<open>Shape\<close> in the repository; \<open>OtherShape\<close>
  stands for an instance of any other subclass, for which every
  \<^verbatim>\<open>instanceof Circle\<close> test is false.
\<close>

datatype Shape = Circle (radius: real) | OtherShape

record PhysicsBody =
  idNum :: int
  position :: Vector2
  velocity :: Vector2
  world :: "wref option"
  isSleeping :: bool
  idleTime :: real
  mass :: real
  invMass :: real
  shape :: Shape
  friction :: real
  restitution :: real
  linearDrag :: real
  isStatic :: bool
  isSensor :: bool
  aabb :: AABB
  isInGrid :: bool
  internalLastPairId :: int

type_synonym heap = "ref \<Rightarrow> PhysicsBody"

record Pair =
  bodyA :: ref
  bodyB :: ref

record Contact =
  bodyA :: ref
  bodyB :: ref
  normal :: Vector2
  penetration :: real
  point :: Vector2

record SpatialGrid =
  width :: int
  height :: int
  cellSize :: real
  partitions :: "ref list list"

record World =
  bodies :: "ref list"
  grid :: SpatialGrid
  collisionPairs :: "Pair list"
  contacts :: "Contact list"
  gravity :: Vector2

text \<open>
  The simulation state: the store of body objects and the store of world objects
  (a body's \<^verbatim>\<open>world\<close> field is a reference into the latter, \<open>None\<close> while it is
  still \<^verbatim>\<open>undefined\<close>). A grid is held by the one world constructed over it.
\<close>

record Sim =
  heap :: heap
  worlds :: "wref \<Rightarrow> World"

text \<open>
  A JavaScript \<^verbatim>\<open>Set\<close> iterates in insertion order and holds each object once:
  it is a list without repetitions; \<^verbatim>\<open>add\<close> of a present element changes nothing.
\<close>

definition set_add :: "'a \<Rightarrow> 'a list \<Rightarrow> 'a list" where
  "set_add e xs = (if e \<in> set xs then xs else xs @ [e])"

definition set_delete :: "'a \<Rightarrow> 'a list \<Rightarrow> 'a list" where
  "set_delete e xs = removeAll e xs"

section \<open>PhysicsBody\<close>

definition SLEEP_TIME_THRESHOLD :: real where
  "SLEEP_TIME_THRESHOLD = 1"

definition SLEEP_VELOCITY_THRESHOLD :: real where
  "SLEEP_VELOCITY_THRESHOLD = 0.01"

definition set_mass :: "real \<Rightarrow> PhysicsBody \<Rightarrow> PhysicsBody" where
  "set_mass v b = b\<lparr>mass := v, invMass := 1 / v\<rparr>"

definition PhysicsBody_new :: "int \<Rightarrow> real \<Rightarrow> Shape \<Rightarrow> PhysicsBody" where
  "PhysicsBody_new i m s =
     \<lparr>idNum = i,
      position = \<lparr>x = 0, y = 0\<rparr>,
      velocity = \<lparr>x = 0, y = 0\<rparr>,
      world = None,
      isSleeping = False,
      idleTime = 0,
      mass = m,
      invMass = 1 / m,
      shape = s,
      friction = 0.1,
      restitution = 0.5,
      linearDrag = 0.1,
      isStatic = False,
      isSensor = False,
      aabb = \<lparr>minP = \<lparr>x = 0, y = 0\<rparr>, maxP = \<lparr>x = 0, y = 0\<rparr>\<rparr>,
      isInGrid = False,
      internalLastPairId = - 1\<rparr>"

definition applyForce :: "Vector2 \<Rightarrow> PhysicsBody \<Rightarrow> PhysicsBody" where
  "applyForce force b =
     (if isStatic b then b
      else b\<lparr>velocity := \<lparr>x = x (velocity b) + x force * invMass b,
                          y = y (velocity b) + y force * invMass b\<rparr>\<rparr>)"

definition sleepTick :: "real \<Rightarrow> PhysicsBody \<Rightarrow> PhysicsBody" where
  "sleepTick dt b =
     (let b1 = (if x (velocity b) * x (velocity b) + y (velocity b) * y (velocity b)
                     < SLEEP_VELOCITY_THRESHOLD
                then b\<lparr>idleTime := idleTime b + dt\<rparr>
                else b\<lparr>idleTime := 0\<rparr>)
      in if idleTime b1 > SLEEP_TIME_THRESHOLD then b1\<lparr>isSleeping := True\<rparr> else b1)"

definition wakeUp :: "PhysicsBody \<Rightarrow> PhysicsBody" where
  "wakeUp b = b\<lparr>isSleeping := False\<rparr>"

text \<open>
  \<^verbatim>\<open>integrate\<close> reads \<^verbatim>\<open>this.world.gravity\<close>; on a body whose \<^verbatim>\<open>world\<close> is
  still undefined that read throws a TypeError, which is the result \<open>None\<close>.
  The three parts after the sleep check are kept as separate functions of the body.
\<close>

definition applyDrag :: "real \<Rightarrow> PhysicsBody \<Rightarrow> PhysicsBody" where
  "applyDrag dt b =
     b\<lparr>velocity := \<lparr>x = x (velocity b) * (1 - linearDrag b * dt),
                     y = y (velocity b) * (1 - linearDrag b * dt)\<rparr>\<rparr>"

definition applyGravity :: "Vector2 \<Rightarrow> real \<Rightarrow> PhysicsBody \<Rightarrow> PhysicsBody" where
  "applyGravity g dt b =
     b\<lparr>velocity := \<lparr>x = x (velocity b) + x g * dt,
                     y = y (velocity b) + y g * dt\<rparr>\<rparr>"

definition integrateVelocity :: "real \<Rightarrow> PhysicsBody \<Rightarrow> PhysicsBody" where
  "integrateVelocity dt b =
     b\<lparr>position := \<lparr>x = x (position b) + x (velocity b) * dt,
                     y = y (position b) + y (velocity b) * dt\<rparr>\<rparr>"

definition integrate :: "(wref \<Rightarrow> World) \<Rightarrow> real \<Rightarrow> PhysicsBody \<Rightarrow> PhysicsBody option" where
  "integrate ws dt b =
     (if isStatic b then Some b
      else let b1 = sleepTick dt b
           in if isSleeping b1 then Some b1
              else let b2 = applyDrag dt b1
                   in case world b2 of
                        None \<Rightarrow> None
                      | Some w \<Rightarrow>
                          Some (integrateVelocity dt (applyGravity (gravity (ws w)) dt b2)))"

text \<open>A caller of the body API between frames: any sequence of the two calls.\<close>

datatype BodyCall = Integrate real | SleepTick real

fun runCalls :: "(wref \<Rightarrow> World) \<Rightarrow> BodyCall list \<Rightarrow> PhysicsBody \<Rightarrow> PhysicsBody option" where
  "runCalls ws [] b = Some b"
| "runCalls ws (Integrate dt # cs) b =
     (case integrate ws dt b of None \<Rightarrow> None | Some b' \<Rightarrow> runCalls ws cs b')"
| "runCalls ws (SleepTick dt # cs) b = runCalls ws cs (sleepTick dt b)"


section \<open>SpatialGrid\<close>

text \<open>
  The constructor allocates \<^verbatim>\<open>new Array(width * height)\<close>, which throws a
  RangeError for a negative length (result \<open>None\<close>), and fills it with empty sets.
\<close>

definition SpatialGrid_new :: "real \<Rightarrow> int \<Rightarrow> int \<Rightarrow> SpatialGrid option" where
  "SpatialGrid_new cs w h =
     (if w * h < 0 then None
      else Some \<lparr>width = w, height = h, cellSize = cs,
                 partitions = replicate (nat (w * h)) []\<rparr>)"

text \<open>
  \<^verbatim>\<open>worldToCell\<close> returns the two floors; its \<^verbatim>\<open>console.log\<close> for a position
  outside the grid changes no state and is left out.
\<close>

definition worldToCell :: "SpatialGrid \<Rightarrow> Vector2 \<Rightarrow> int \<times> int" where
  "worldToCell g vec = (\<lfloor>x vec / cellSize g\<rfloor>, \<lfloor>y vec / cellSize g\<rfloor>)"

definition getCellsInAABB :: "SpatialGrid \<Rightarrow> AABB \<Rightarrow> int list" where
  "getCellsInAABB g box =
     (let mn = worldToCell g (minP box);
          mx = worldToCell g (maxP box)
      in concat (map (\<lambda>cy. map (\<lambda>cx.
                   (let cellX = max 0 (min (width g - 1) cx);
                        cellY = max 0 (min (height g - 1) cy)
                    in cellX + cellY * width g))
                 [fst mn..fst mx])
               [snd mn..snd mx]))"

text \<open>
  \<^verbatim>\<open>this.partitions[c]\<close> is \<^verbatim>\<open>undefined\<close> when \<open>c\<close> is no index of the array, and
  calling \<^verbatim>\<open>add\<close>, \<^verbatim>\<open>delete\<close> or iterating on it throws a TypeError: \<open>None\<close>.
\<close>

fun addToCells :: "ref \<Rightarrow> int list \<Rightarrow> ref list list \<Rightarrow> ref list list option" where
  "addToCells b [] ps = Some ps"
| "addToCells b (c # cs) ps =
     (if 0 \<le> c \<and> c < int (length ps)
      then addToCells b cs (ps[nat c := set_add b (ps ! nat c)])
      else None)"

definition SpatialGrid_addBody :: "SpatialGrid \<Rightarrow> heap \<Rightarrow> ref \<Rightarrow> (SpatialGrid \<times> heap) option" where
  "SpatialGrid_addBody g h b =
     (case addToCells b (getCellsInAABB g (aabb (h b))) (partitions g) of
        None \<Rightarrow> None
      | Some ps \<Rightarrow> Some (g\<lparr>partitions := ps\<rparr>, h(b := (h b)\<lparr>isInGrid := True\<rparr>)))"

fun removeFromCells :: "ref \<Rightarrow> int list \<Rightarrow> ref list list \<Rightarrow> ref list list option" where
  "removeFromCells b [] ps = Some ps"
| "removeFromCells b (c # cs) ps =
     (if 0 \<le> c \<and> c < int (length ps)
      then removeFromCells b cs (ps[nat c := set_delete b (ps ! nat c)])
      else None)"

definition SpatialGrid_removeBody :: "SpatialGrid \<Rightarrow> heap \<Rightarrow> ref \<Rightarrow> (SpatialGrid \<times> heap) option" where
  "SpatialGrid_removeBody g h b =
     (case removeFromCells b (getCellsInAABB g (aabb (h b))) (partitions g) of
        None \<Rightarrow> None
      | Some ps \<Rightarrow> Some (g\<lparr>partitions := ps\<rparr>, h(b := (h b)\<lparr>isInGrid := False\<rparr>)))"

fun collectCells :: "int list \<Rightarrow> ref list list \<Rightarrow> ref list option" where
  "collectCells [] ps = Some []"
| "collectCells (c # cs) ps =
     (if 0 \<le> c \<and> c < int (length ps)
      then (case collectCells cs ps of
              None \<Rightarrow> None
            | Some bs \<Rightarrow> Some (ps ! nat c @ bs))
      else None)"

definition queryAABB :: "SpatialGrid \<Rightarrow> AABB \<Rightarrow> ref list option" where
  "queryAABB g box = collectCells (getCellsInAABB g box) (partitions g)"

text \<open>The first loop of \<^verbatim>\<open>generatePairs\<close>, over the given body set.\<close>

fun resetAndInsert :: "ref list \<Rightarrow> SpatialGrid \<Rightarrow> heap \<Rightarrow> (SpatialGrid \<times> heap) option" where
  "resetAndInsert [] g h = Some (g, h)"
| "resetAndInsert (b # bs) g h =
     (let h1 = h(b := (h b)\<lparr>internalLastPairId := - 1\<rparr>)
      in if \<not> isInGrid (h1 b)
         then (case SpatialGrid_addBody g h1 b of
                 None \<Rightarrow> None
               | Some (g2, h2) \<Rightarrow> resetAndInsert bs g2 h2)
         else resetAndInsert bs g h1)"

text \<open>The innermost loop, over the bodies the query returned for \<open>a\<close>.\<close>

fun emitPairs :: "ref \<Rightarrow> ref list \<Rightarrow> heap \<Rightarrow> Pair list \<Rightarrow> heap \<times> Pair list" where
  "emitPairs a [] h acc = (h, acc)"
| "emitPairs a (b # bs) h acc =
     (if idNum (h a) = internalLastPairId (h b)
      then emitPairs a bs h acc
      else emitPairs a bs (h(b := (h b)\<lparr>internalLastPairId := idNum (h a)\<rparr>))
             (acc @ [\<lparr>Pair.bodyA = a, Pair.bodyB = b\<rparr>]))"

text \<open>
  The loop over one partition. While it runs, the only element deleted from any
  partition is the one being visited, and nothing is added, so the iterator of the
  JavaScript \<^verbatim>\<open>Set\<close> yields exactly the members the partition had when the loop
  over it began: the list \<open>as\<close>.
\<close>

fun visitPartition ::
  "ref list \<Rightarrow> SpatialGrid \<Rightarrow> heap \<Rightarrow> Pair list \<Rightarrow> (SpatialGrid \<times> heap \<times> Pair list) option" where
  "visitPartition [] g h acc = Some (g, h, acc)"
| "visitPartition (a # as) g h acc =
     (if isSleeping (h a) then visitPartition as g h acc
      else (case SpatialGrid_removeBody g h a of
              None \<Rightarrow> None
            | Some (g1, h1) \<Rightarrow>
               (case queryAABB g1 (aabb (h1 a)) of
                  None \<Rightarrow> None
                | Some intersectingBodies \<Rightarrow>
                    (case emitPairs a intersectingBodies h1 acc of
                       (h2, acc2) \<Rightarrow> visitPartition as g1 h2 acc2))))"

fun visitPartitions ::
  "nat list \<Rightarrow> SpatialGrid \<Rightarrow> heap \<Rightarrow> Pair list \<Rightarrow> (SpatialGrid \<times> heap \<times> Pair list) option" where
  "visitPartitions [] g h acc = Some (g, h, acc)"
| "visitPartitions (i # is) g h acc =
     (case visitPartition (partitions g ! i) g h acc of
        None \<Rightarrow> None
      | Some (g1, h1, acc1) \<Rightarrow> visitPartitions is g1 h1 acc1)"

definition generatePairs ::
  "SpatialGrid \<Rightarrow> heap \<Rightarrow> ref list \<Rightarrow> (SpatialGrid \<times> heap \<times> Pair list) option" where
  "generatePairs g h bs =
     (case resetAndInsert bs g h of
        None \<Rightarrow> None
      | Some (g1, h1) \<Rightarrow> visitPartitions [0..<length (partitions g1)] g1 h1 [])"

section \<open>World\<close>

definition World_new :: "SpatialGrid \<Rightarrow> World" where
  "World_new g =
     \<lparr>bodies = [], grid = g, collisionPairs = [], contacts = [],
      gravity = \<lparr>x = 0, y = 0\<rparr>\<rparr>"

definition World_addBody :: "wref \<Rightarrow> ref \<Rightarrow> Sim \<Rightarrow> Sim" where
  "World_addBody this body s =
     s\<lparr>heap := (heap s)(body := (heap s body)\<lparr>world := Some this\<rparr>),
       worlds := (worlds s)(this := (worlds s this)
                    \<lparr>bodies := set_add body (bodies (worlds s this))\<rparr>)\<rparr>"

definition World_removeBody :: "wref \<Rightarrow> ref \<Rightarrow> Sim \<Rightarrow> Sim" where
  "World_removeBody this body s =
     s\<lparr>heap := (heap s)(body := (heap s body)\<lparr>world := Some this\<rparr>),
       worlds := (worlds s)(this := (worlds s this)
                    \<lparr>bodies := set_delete body (bodies (worlds s this))\<rparr>)\<rparr>"

subsection \<open>Broad phase\<close>

fun updateAABBs :: "ref list \<Rightarrow> heap \<Rightarrow> heap" where
  "updateAABBs [] h = h"
| "updateAABBs (b # bs) h =
     updateAABBs bs
       (case shape (h b) of
          Circle r \<Rightarrow>
            h(b := (h b)\<lparr>aabb :=
                 \<lparr>minP = \<lparr>x = x (position (h b)) - r, y = y (position (h b)) - r\<rparr>,
                  maxP = \<lparr>x = x (position (h b)) + r, y = y (position (h b)) + r\<rparr>\<rparr>\<rparr>)
        | OtherShape \<Rightarrow> h)"

definition stepBroadPhase :: "real \<Rightarrow> World \<Rightarrow> heap \<Rightarrow> (World \<times> heap) option" where
  "stepBroadPhase dt W h =
     (let h1 = updateAABBs (bodies W) h
      in case generatePairs (grid W) h1 (bodies W) of
           None \<Rightarrow> None
         | Some (g, h2, ps) \<Rightarrow> Some (W\<lparr>grid := g, collisionPairs := ps\<rparr>, h2))"

subsection \<open>Narrow phase\<close>

definition narrowPair :: "Pair \<Rightarrow> heap \<Rightarrow> Contact list \<Rightarrow> heap \<times> Contact list" where
  "narrowPair pair h cs =
     (let a = Pair.bodyA pair; b = Pair.bodyB pair
      in case shape (h a) of
           OtherShape \<Rightarrow> (h, cs)
         | Circle rA \<Rightarrow>
            (case shape (h b) of
               OtherShape \<Rightarrow> (h, cs)
             | Circle rB \<Rightarrow>
                (let distance = sqrt ((x (position (h a)) - x (position (h b)))\<^sup>2
                                     + (y (position (h a)) - y (position (h b)))\<^sup>2)
                 in if distance < rA + rB
                    then
                      (let n = normalize \<lparr>x = x (position (h b)) - x (position (h a)),
                                          y = y (position (h b)) - y (position (h a))\<rparr>;
                           pen = rA + rB - distance;
                           pt = \<lparr>x = x (position (h a)) + x n * rA,
                                 y = y (position (h a)) + y n * rA\<rparr>;
                           h1 = h(a := wakeUp (h a));
                           h2 = h1(b := wakeUp (h1 b))
                       in (h2, cs @ [\<lparr>Contact.bodyA = a, Contact.bodyB = b, normal = n,
                                      penetration = pen, point = pt\<rparr>]))
                    else (h, cs))))"

fun narrowPhaseLoop :: "Pair list \<Rightarrow> heap \<Rightarrow> Contact list \<Rightarrow> heap \<times> Contact list" where
  "narrowPhaseLoop [] h cs = (h, cs)"
| "narrowPhaseLoop (p # ps) h cs =
     (case narrowPair p h cs of (h1, cs1) \<Rightarrow> narrowPhaseLoop ps h1 cs1)"

definition stepNarrowPhase :: "real \<Rightarrow> World \<Rightarrow> heap \<Rightarrow> World \<times> heap" where
  "stepNarrowPhase dt W h =
     (case narrowPhaseLoop (collisionPairs W) h (contacts W) of
        (h1, cs) \<Rightarrow> (W\<lparr>contacts := cs\<rparr>, h1))"

subsection \<open>Collision resolution\<close>

definition stepResolveStaticCollisions :: "real \<Rightarrow> World \<Rightarrow> heap \<Rightarrow> heap" where
  "stepResolveStaticCollisions dt W h = h"

text \<open>In-place updates of one body's velocity or position, both components.\<close>

definition subVelocity :: "ref \<Rightarrow> real \<Rightarrow> real \<Rightarrow> heap \<Rightarrow> heap" where
  "subVelocity r dx dy h =
     h(r := (h r)\<lparr>velocity := \<lparr>x = x (velocity (h r)) - dx, y = y (velocity (h r)) - dy\<rparr>\<rparr>)"

definition addVelocity :: "ref \<Rightarrow> real \<Rightarrow> real \<Rightarrow> heap \<Rightarrow> heap" where
  "addVelocity r dx dy h =
     h(r := (h r)\<lparr>velocity := \<lparr>x = x (velocity (h r)) + dx, y = y (velocity (h r)) + dy\<rparr>\<rparr>)"

definition subPosition :: "ref \<Rightarrow> real \<Rightarrow> real \<Rightarrow> heap \<Rightarrow> heap" where
  "subPosition r dx dy h =
     h(r := (h r)\<lparr>position := \<lparr>x = x (position (h r)) - dx, y = y (position (h r)) - dy\<rparr>\<rparr>)"

definition addPosition :: "ref \<Rightarrow> real \<Rightarrow> real \<Rightarrow> heap \<Rightarrow> heap" where
  "addPosition r dx dy h =
     h(r := (h r)\<lparr>position := \<lparr>x = x (position (h r)) + dx, y = y (position (h r)) + dy\<rparr>\<rparr>)"

text \<open>``Set velocity to 0 if it is too small'': first the x component, then y.\<close>

definition snapVelocity :: "ref \<Rightarrow> heap \<Rightarrow> heap" where
  "snapVelocity r h =
     (let h1 = (if \<bar>x (velocity (h r))\<bar> < 0.01
                then h(r := (h r)\<lparr>velocity := (velocity (h r))\<lparr>x := 0\<rparr>\<rparr>) else h)
      in if \<bar>y (velocity (h1 r))\<bar> < 0.01
         then h1(r := (h1 r)\<lparr>velocity := (velocity (h1 r))\<lparr>y := 0\<rparr>\<rparr>) else h1)"

text \<open>The body of \<^verbatim>\<open>if (velAlongNormal < 0)\<close>: normal impulse, friction, snapping.\<close>

definition resolveVelocity ::
  "Contact \<Rightarrow> real \<Rightarrow> real \<Rightarrow> Vector2 \<Rightarrow> real \<Rightarrow> heap \<Rightarrow> heap" where
  "resolveVelocity contact invMassA invMassB rv velAlongNormal h =
     (let a = Contact.bodyA contact; b = Contact.bodyB contact; n = normal contact;
          e = min (restitution (h a)) (restitution (h b));
          j = (- (1 + e) * velAlongNormal) / (invMassA + invMassB);
          impulse = \<lparr>x = x n * j, y = y n * j\<rparr>;
          h1 = (if \<not> isStatic (h a)
                then subVelocity a (x impulse * invMass (h a)) (y impulse * invMass (h a)) h
                else h);
          h2 = (if \<not> isStatic (h1 b)
                then addVelocity b (x impulse * invMass (h1 b)) (y impulse * invMass (h1 b)) h1
                else h1);
          tangent = normalize \<lparr>x = x rv - x n * velAlongNormal,
                               y = y rv - y n * velAlongNormal\<rparr>;
          jt = (- dot rv tangent) / (invMassA + invMassB)
      in if \<bar>jt\<bar> > 0.01
         then
           (let tangentImpulse =
                  (if \<bar>jt\<bar> < j * friction (h2 a)
                   then \<lparr>x = x tangent * jt, y = y tangent * jt\<rparr>
                   else \<lparr>x = x tangent * - j * friction (h2 a),
                         y = y tangent * - j * friction (h2 a)\<rparr>);
                h3 = (if \<not> isStatic (h2 a)
                      then subVelocity a (x tangentImpulse * invMassA)
                             (y tangentImpulse * invMassA) h2
                      else h2);
                h4 = (if \<not> isStatic (h3 b)
                      then addVelocity b (x tangentImpulse * invMassB)
                             (y tangentImpulse * invMassB) h3
                      else h3)
            in snapVelocity b (snapVelocity a h4))
         else h2)"

text \<open>``Fix penetration'': the tail of the loop body, reached on both branches.\<close>

definition fixPenetration :: "Contact \<Rightarrow> real \<Rightarrow> real \<Rightarrow> heap \<Rightarrow> heap" where
  "fixPenetration contact invMassA invMassB h =
     (let a = Contact.bodyA contact; b = Contact.bodyB contact;
          percent = 0.2;
          slop = 0.01;
          correction = (max (penetration contact - slop) 0.0 / (invMassA + invMassB)) * percent;
          correctionVector = \<lparr>x = x (normal contact) * correction,
                                y = y (normal contact) * correction\<rparr>;
          h1 = (if \<not> isStatic (h a)
                then subPosition a (x correctionVector * invMassA)
                       (y correctionVector * invMassA) h
                else h)
      in if \<not> isStatic (h1 b)
         then addPosition b (x correctionVector * invMassB) (y correctionVector * invMassB) h1
         else h1)"

definition resolveContact :: "Contact \<Rightarrow> heap \<Rightarrow> heap" where
  "resolveContact contact h =
     (let a = Contact.bodyA contact; b = Contact.bodyB contact;
          invMassA = (if isStatic (h a) then 0 else invMass (h a));
          invMassB = (if isStatic (h b) then 0 else invMass (h b))
      in if isStatic (h a) \<and> isStatic (h b) then h
         else
           (let rv = \<lparr>x = x (velocity (h b)) - x (velocity (h a)),
                      y = y (velocity (h b)) - y (velocity (h a))\<rparr>;
                velAlongNormal = dot rv (normal contact);
                h1 = (if velAlongNormal < 0
                      then resolveVelocity contact invMassA invMassB rv velAlongNormal h
                      else h)
            in fixPenetration contact invMassA invMassB h1))"

fun resolveLoop :: "Contact list \<Rightarrow> heap \<Rightarrow> heap" where
  "resolveLoop [] h = h"
| "resolveLoop (c # cs) h = resolveLoop cs (resolveContact c h)"

definition stepResolveCollisions :: "real \<Rightarrow> World \<Rightarrow> heap \<Rightarrow> heap" where
  "stepResolveCollisions dt W h = resolveLoop (contacts W) h"

subsection \<open>Integration, post step and the frame\<close>

fun integrateLoop :: "(wref \<Rightarrow> World) \<Rightarrow> real \<Rightarrow> ref list \<Rightarrow> heap \<Rightarrow> heap option" where
  "integrateLoop ws dt [] h = Some h"
| "integrateLoop ws dt (b # bs) h =
     (case integrate ws dt (h b) of
        None \<Rightarrow> None
      | Some b' \<Rightarrow> integrateLoop ws dt bs (h(b := b')))"

definition stepIntegrate :: "(wref \<Rightarrow> World) \<Rightarrow> real \<Rightarrow> World \<Rightarrow> heap \<Rightarrow> heap option" where
  "stepIntegrate ws dt W h = integrateLoop ws dt (bodies W) h"

definition postStep :: "World \<Rightarrow> World" where
  "postStep W = W\<lparr>collisionPairs := [], contacts := []\<rparr>"

text \<open>
  \<^verbatim>\<open>World.step\<close> on the world object \<open>this\<close>. A TypeError thrown in a phase
  abandons the frame: the result is \<open>None\<close>.
\<close>

definition step :: "wref \<Rightarrow> real \<Rightarrow> Sim \<Rightarrow> Sim option" where
  "step this dt s =
     (case stepBroadPhase dt (worlds s this) (heap s) of
        None \<Rightarrow> None
      | Some (W1, h1) \<Rightarrow>
         (case stepNarrowPhase dt W1 h1 of
            (W2, h2) \<Rightarrow>
              (let h3 = stepResolveStaticCollisions dt W2 h2;
                   h4 = stepResolveCollisions dt W2 h3
               in case stepIntegrate ((worlds s)(this := W2)) dt W2 h4 of
                    None \<Rightarrow> None
                  | Some h5 \<Rightarrow>
                      Some \<lparr>heap = h5, worlds = (worlds s)(this := postStep W2)\<rparr>)))"

fun steps :: "wref \<Rightarrow> real list \<Rightarrow> Sim \<Rightarrow> Sim option" where
  "steps this [] s = Some s"
| "steps this (dt # dts) s =
     (case step this dt s of None \<Rightarrow> None | Some s1 \<Rightarrow> steps this dts s1)"

section \<open>Predicates and example states used in the statements\<close>

text \<open>
  A grid as its constructor builds it from a positive cell size and positive cell
  counts: one partition per cell.
\<close>

definition wf_grid :: "SpatialGrid \<Rightarrow> bool" where
  "wf_grid g \<longleftrightarrow>
     0 < cellSize g \<and> 1 \<le> width g \<and> 1 \<le> height g \<and>
     int (length (partitions g)) = width g * height g"

text \<open>Actual presence of a body in the grid: membership in some partition.\<close>

definition resident :: "SpatialGrid \<Rightarrow> ref \<Rightarrow> bool" where
  "resident g b \<longleftrightarrow> (\<exists>p \<in> set (partitions g). b \<in> set p)"

text \<open>An empty grid of a single cell of size 10.\<close>

definition exGrid1 :: SpatialGrid where
  "exGrid1 = \<lparr>width = 1, height = 1, cellSize = 10, partitions = [[]]\<rparr>"

text \<open>A static circle with a small leftover velocity, and a dynamic circle.\<close>

definition exStatic :: PhysicsBody where
  "exStatic = (PhysicsBody_new 1 1 (Circle 1))
     \<lparr>position := \<lparr>x = 5, y = 5\<rparr>, velocity := \<lparr>x = 0.005, y = 0\<rparr>, isStatic := True\<rparr>"

definition exDynamic :: PhysicsBody where
  "exDynamic = (PhysicsBody_new 2 1 (Circle 1))
     \<lparr>position := \<lparr>x = 6, y = 5\<rparr>, velocity := \<lparr>x = - 1, y = 1\<rparr>\<rparr>"

text \<open>
  One world (object 0) over a one-cell grid, holding a static circle (object 0) and
  an overlapping dynamic circle (object 1) that moves towards it.
\<close>

definition exSim :: Sim where
  "exSim = World_addBody 0 1 (World_addBody 0 0
     \<lparr>heap = (\<lambda>_. PhysicsBody_new 0 1 OtherShape)(0 := exStatic, 1 := exDynamic),
      worlds = (\<lambda>_. World_new exGrid1)\<rparr>)"

text \<open>A slow dynamic body that has been idle for 0.95 time units.\<close>

definition exIdle :: PhysicsBody where
  "exIdle = (PhysicsBody_new 3 1 (Circle 1))
     \<lparr>velocity := \<lparr>x = 0.05, y = 0.05\<rparr>, idleTime := 0.95, world := Some 0\<rparr>"


text \<open>No pair of the list couples a body with itself.\<close>

definition pairsDistinct :: "Pair list \<Rightarrow> bool" where
  "pairsDistinct ps \<longleftrightarrow> (\<forall>p \<in> set ps. Pair.bodyA p \<noteq> Pair.bodyB p)"

text \<open>The \<open>isInGrid\<close> flag of every body equals its presence in the partitions.\<close>

definition flagMatchesPresence :: "SpatialGrid \<Rightarrow> heap \<Rightarrow> bool" where
  "flagMatchesPresence g h \<longleftrightarrow> (\<forall>b. isInGrid (h b) = resident g b)"

text \<open>
  An empty grid of two cells side by side, and a store whose body 0 is a circle of
  radius 1 at (3,3), in the left cell.
\<close>

definition exGrid2 :: SpatialGrid where
  "exGrid2 = \<lparr>width = 2, height = 1, cellSize = 10, partitions = [[], []]\<rparr>"

definition exHeap2 :: heap where
  "exHeap2 = (\<lambda>_. PhysicsBody_new 0 1 OtherShape)
     (0 := (PhysicsBody_new 4 1 (Circle 1))\<lparr>position := \<lparr>x = 3, y = 3\<rparr>\<rparr>)"

text \<open>A body's position after it has moved (by integration or by its owner).\<close>

definition moveTo :: "ref \<Rightarrow> Vector2 \<Rightarrow> heap \<Rightarrow> heap" where
  "moveTo b p h = h(b := (h b)\<lparr>position := p\<rparr>)"

text \<open>The example world with body 0 resident in the grid's only cell.\<close>

definition exResident :: Sim where
  "exResident =
     exSim\<lparr>heap := (heap exSim)(0 := (heap exSim 0)\<lparr>isInGrid := True\<rparr>),
           worlds := (worlds exSim)(0 := (worlds exSim 0)
                       \<lparr>grid := exGrid1\<lparr>partitions := [[0]]\<rparr>\<rparr>)\<rparr>"

text \<open>Two circles of radius 1 centred at (0,0) and (1.5,0), the first one asleep.\<close>

definition exCircles :: heap where
  "exCircles = (\<lambda>_. PhysicsBody_new 0 1 OtherShape)
     (0 := (PhysicsBody_new 1 1 (Circle 1))\<lparr>position := \<lparr>x = 0, y = 0\<rparr>, isSleeping := True\<rparr>,
      1 := (PhysicsBody_new 2 1 (Circle 1))\<lparr>position := \<lparr>x = 1.5, y = 0\<rparr>\<rparr>)"

text \<open>Two circles of radius 1 centred at (0,0) and (3,0).\<close>

definition exApart :: heap where
  "exApart = (\<lambda>_. PhysicsBody_new 0 1 OtherShape)
     (0 := (PhysicsBody_new 1 1 (Circle 1))\<lparr>position := \<lparr>x = 0, y = 0\<rparr>\<rparr>,
      1 := (PhysicsBody_new 2 1 (Circle 1))\<lparr>position := \<lparr>x = 3, y = 0\<rparr>\<rparr>)"

text \<open>
  The contact the specification describes for a candidate pair: both shapes circles
  and the centre distance below the sum of the radii.
\<close>

definition circleContact :: "heap \<Rightarrow> Pair \<Rightarrow> Contact option" where
  "circleContact h p =
     (case shape (h (Pair.bodyA p)) of
        OtherShape \<Rightarrow> None
      | Circle rA \<Rightarrow>
         (case shape (h (Pair.bodyB p)) of
            OtherShape \<Rightarrow> None
          | Circle rB \<Rightarrow>
             (let posA = position (h (Pair.bodyA p)); posB = position (h (Pair.bodyB p));
                  distance = sqrt ((x posA - x posB)\<^sup>2 + (y posA - y posB)\<^sup>2);
                  n = normalize \<lparr>x = x posB - x posA, y = y posB - y posA\<rparr>
              in if distance < rA + rB
                 then Some \<lparr>Contact.bodyA = Pair.bodyA p, Contact.bodyB = Pair.bodyB p,
                            normal = n, penetration = rA + rB - distance,
                            point = \<lparr>x = x posA + x n * rA, y = y posA + y n * rA\<rparr>\<rparr>
                 else None)))"

text \<open>The bodies of the pairs that yield a contact.\<close>

definition touched :: "heap \<Rightarrow> Pair list \<Rightarrow> ref set" where
  "touched h ps =
     {r. \<exists>p \<in> set ps. circleContact h p \<noteq> None \<and> (r = Pair.bodyA p \<or> r = Pair.bodyB p)}"

text \<open>The static circle and the dynamic circle of the example world, now moving apart.\<close>

definition exSeparating :: heap where
  "exSeparating = (\<lambda>_. PhysicsBody_new 0 1 OtherShape)
     (0 := exStatic, 1 := exDynamic\<lparr>velocity := \<lparr>x = 1, y = 1\<rparr>\<rparr>)"

text \<open>Their contact: normal from the static to the dynamic body, penetration 1.\<close>

definition exContact :: Contact where
  "exContact = \<lparr>Contact.bodyA = 0, Contact.bodyB = 1, normal = \<lparr>x = 1, y = 0\<rparr>,
                penetration = 1, point = \<lparr>x = 6, y = 5\<rparr>\<rparr>"

text \<open>Each component of \<open>v'\<close> is that of \<open>v\<close> or has been set to 0.\<close>

definition snapped :: "Vector2 \<Rightarrow> Vector2 \<Rightarrow> bool" where
  "snapped v v' \<longleftrightarrow> (x v' = x v \<or> x v' = 0) \<and> (y v' = y v \<or> y v' = 0)"

text \<open>
  What a frame may do to static bodies: they stay static and in place, and their
  velocity is as before up to components set to 0.
\<close>

definition staticFrame :: "heap \<Rightarrow> heap \<Rightarrow> bool" where
  "staticFrame h h' \<longleftrightarrow>
     (\<forall>r. isStatic (h' r) = isStatic (h r) \<and>
          (isStatic (h r) \<longrightarrow>
             position (h' r) = position (h r) \<and> snapped (velocity (h r)) (velocity (h' r))))"

text \<open>No body has changed its static flag, position or velocity.\<close>

definition sameMotion :: "heap \<Rightarrow> heap \<Rightarrow> bool" where
  "sameMotion h h' \<longleftrightarrow>
     (\<forall>r. isStatic (h' r) = isStatic (h r) \<and> position (h' r) = position (h r) \<and>
          velocity (h' r) = velocity (h r))"

section \<open>Properties\<close>

subsection \<open>Evaluation of the example states\<close>

lemmas ex_defs = exSim_def World_addBody_def World_new_def exGrid1_def set_add_def
  exStatic_def exDynamic_def exIdle_def PhysicsBody_new_def

lemmas grid_defs = generatePairs_def SpatialGrid_addBody_def getCellsInAABB_def
  worldToCell_def SpatialGrid_removeBody_def queryAABB_def set_delete_def set_add_def

lemmas sleep_defs = sleepTick_def SLEEP_TIME_THRESHOLD_def SLEEP_VELOCITY_THRESHOLD_def

subsection \<open>The sleep state machine\<close>

lemma sleepTick_isSleeping: "isSleeping b \<Longrightarrow> isSleeping (sleepTick dt b)"
  by (simp add: sleepTick_def Let_def)

lemma integrate_isSleeping:
  "isSleeping b \<Longrightarrow> \<exists>b'. integrate ws dt b = Some b' \<and> isSleeping b'"
  by (simp add: integrate_def Let_def sleepTick_isSleeping)

lemma runCalls_isSleeping:
  "isSleeping b \<Longrightarrow> \<exists>b'. runCalls ws cs b = Some b' \<and> isSleeping b'"
proof (induction cs arbitrary: b)
  case Nil
  then show ?case by simp
next
  case (Cons c cs)
  show ?case
  proof (cases c)
    case (Integrate dt)
    from integrate_isSleeping [OF Cons.prems, of ws dt]
    obtain b1 where b1: "integrate ws dt b = Some b1" "isSleeping b1" by blast
    from Cons.IH [OF b1(2)] b1(1) Integrate show ?thesis by simp
  next
    case (SleepTick dt)
    from Cons.IH [OF sleepTick_isSleeping [OF Cons.prems, of dt]] SleepTick
    show ?thesis by simp
  qed
qed

text \<open>
  C5. For a non-static body, \<^verbatim>\<open>integrate(dt)\<close> starts with the sleep check: the idle
  time grows by \<open>dt\<close> when the squared speed is below 0.01 and is reset to 0
  otherwise, and an idle time above 1 puts the body to sleep. A body that is asleep
  after the check is returned as the check left it (no drag, gravity or position
  update); an awake one gets the three updates (or the TypeError of an undefined
  world). No sequence of \<^verbatim>\<open>integrate\<close> and \<^verbatim>\<open>sleepTick\<close> calls wakes a sleeping body:
  every such sequence completes and leaves it asleep.
\<close>

theorem integrate_sleep_state_machine:
  "\<not> isStatic b \<Longrightarrow>
     sleepTick dt b =
       (let t = (if (x (velocity b))\<^sup>2 + (y (velocity b))\<^sup>2 < 0.01
                 then idleTime b + dt else 0)
        in b\<lparr>idleTime := t, isSleeping := (isSleeping b \<or> t > 1)\<rparr>)
     \<and> (isSleeping (sleepTick dt b) \<longrightarrow> integrate ws dt b = Some (sleepTick dt b))
     \<and> (\<not> isSleeping (sleepTick dt b) \<longrightarrow>
          integrate ws dt b =
            (case world b of
               None \<Rightarrow> None
             | Some w \<Rightarrow> Some (integrateVelocity dt (applyGravity (gravity (ws w)) dt
                                  (applyDrag dt (sleepTick dt b))))))
     \<and> (isSleeping b \<longrightarrow> (\<exists>b'. runCalls ws cs b = Some b' \<and> isSleeping b'))"
proof (intro conjI impI)
  show "sleepTick dt b =
       (let t = (if (x (velocity b))\<^sup>2 + (y (velocity b))\<^sup>2 < 0.01
                 then idleTime b + dt else 0)
        in b\<lparr>idleTime := t, isSleeping := (isSleeping b \<or> t > 1)\<rparr>)"
    by (simp add: sleep_defs Let_def power2_eq_square)
next
  assume "\<not> isStatic b" "isSleeping (sleepTick dt b)"
  then show "integrate ws dt b = Some (sleepTick dt b)"
    by (simp add: integrate_def Let_def)
next
  assume "\<not> isStatic b" "\<not> isSleeping (sleepTick dt b)"
  then show "integrate ws dt b =
            (case world b of
               None \<Rightarrow> None
             | Some w \<Rightarrow> Some (integrateVelocity dt (applyGravity (gravity (ws w)) dt
                                  (applyDrag dt (sleepTick dt b)))))"
    by (simp add: integrate_def Let_def applyDrag_def sleepTick_def split: option.splits)
next
  assume "isSleeping b"
  then show "\<exists>b'. runCalls ws cs b = Some b' \<and> isSleeping b'"
    by (rule runCalls_isSleeping)
qed

theorem integrate_sleep_state_machine_witness:
  "\<not> isStatic exIdle
   \<and> integrate (worlds exSim) 0.1 exIdle = Some (exIdle\<lparr>idleTime := 1.05, isSleeping := True\<rparr>)
   \<and> (\<exists>b'. runCalls (worlds exSim) [Integrate 1, SleepTick 2]
               (exIdle\<lparr>isSleeping := True\<rparr>) = Some b' \<and> isSleeping b')
   \<and> integrate (worlds exSim) 0.01 exIdle =
       Some (exIdle\<lparr>idleTime := 0.96,
                    velocity := \<lparr>x = 0.04995, y = 0.04995\<rparr>,
                    position := \<lparr>x = 0.0004995, y = 0.0004995\<rparr>\<rparr>)"
proof -
  have ns: "\<not> isStatic exIdle" "\<not> isStatic (exIdle\<lparr>isSleeping := True\<rparr>)"
    by (simp_all add: ex_defs)
  have 1: "integrate (worlds exSim) 0.1 exIdle = Some (exIdle\<lparr>idleTime := 1.05, isSleeping := True\<rparr>)"
    using integrate_sleep_state_machine [OF ns(1), of "0.1" "worlds exSim" "[]"]
    by (simp add: ex_defs Let_def power2_eq_square)
  have 2: "\<exists>b'. runCalls (worlds exSim) [Integrate 1, SleepTick 2]
               (exIdle\<lparr>isSleeping := True\<rparr>) = Some b' \<and> isSleeping b'"
    using integrate_sleep_state_machine
            [OF ns(2), of 0 "worlds exSim" "[Integrate 1, SleepTick 2]"]
    by simp
  have 3: "integrate (worlds exSim) 0.01 exIdle =
       Some (exIdle\<lparr>idleTime := 0.96,
                    velocity := \<lparr>x = 0.04995, y = 0.04995\<rparr>,
                    position := \<lparr>x = 0.0004995, y = 0.0004995\<rparr>\<rparr>)"
    using integrate_sleep_state_machine [OF ns(1), of "0.01" "worlds exSim" "[]"]
    by (simp add: ex_defs Let_def power2_eq_square applyDrag_def applyGravity_def
          integrateVelocity_def)
  from ns(1) 1 2 3 show ?thesis by blast
qed









subsection \<open>Grid cells and partitions\<close>

lemma set_add_idem: "set_add b (set_add b p) = set_add b p"
  by (simp add: set_add_def)

lemma set_delete_idem: "set_delete b (set_delete b p) = set_delete b p"
  by (simp add: set_delete_def)

lemma set_delete_set_add: "b \<notin> set p \<Longrightarrow> set_delete b (set_add b p) = p"
  by (simp add: set_add_def set_delete_def)

lemma set_delete_notin: "b \<notin> set (set_delete b p)"
  by (simp add: set_delete_def)

lemma cell_index_bound:
  fixes w h cx cy :: int
  assumes "1 \<le> w" "1 \<le> h"
  shows "0 \<le> max 0 (min (w - 1) cx) + max 0 (min (h - 1) cy) * w"
    and "max 0 (min (w - 1) cx) + max 0 (min (h - 1) cy) * w < w * h"
proof -
  let ?X = "max 0 (min (w - 1) cx)" and ?Y = "max 0 (min (h - 1) cy)"
  have X: "0 \<le> ?X" "?X \<le> w - 1" using assms by auto
  have Y: "0 \<le> ?Y" "?Y \<le> h - 1" using assms by auto
  have "0 \<le> ?Y * w" using Y(1) assms(1) by simp
  with X(1) show "0 \<le> ?X + ?Y * w" by linarith
  have "?Y * w \<le> (h - 1) * w" using Y(2) assms(1) by (intro mult_right_mono) auto
  then have "?X + ?Y * w \<le> (w - 1) + (h - 1) * w" using X(2) by linarith
  also have "\<dots> = w * h - 1" by (simp add: algebra_simps)
  finally show "?X + ?Y * w < w * h" by simp
qed

lemma SpatialGrid_new_wf:
  "0 < cs \<Longrightarrow> 1 \<le> w \<Longrightarrow> 1 \<le> h \<Longrightarrow>
     \<exists>g. SpatialGrid_new cs w h = Some g \<and> wf_grid g \<and> (\<forall>b. \<not> resident g b)"
proof -
  assume a: "0 < cs" "1 \<le> w" "1 \<le> h"
  then have "\<not> w * h < 0" by (simp add: not_less)
  with a show ?thesis
    by (simp add: SpatialGrid_new_def wf_grid_def resident_def)
qed

lemma getCellsInAABB_range:
  assumes "wf_grid g" "c \<in> set (getCellsInAABB g box)"
  shows "0 \<le> c \<and> c < int (length (partitions g))"
  using assms cell_index_bound [of "width g" "height g"]
  by (auto simp add: wf_grid_def getCellsInAABB_def Let_def)

lemma addToCells_Some:
  "addToCells b cs ps = Some ps' \<Longrightarrow>
     length ps' = length ps \<and> (\<forall>c \<in> set cs. 0 \<le> c \<and> c < int (length ps)) \<and>
     (\<forall>k < length ps. ps' ! k = (if int k \<in> set cs then set_add b (ps ! k) else ps ! k))"
proof (induction cs arbitrary: ps)
  case Nil
  then show ?case by simp
next
  case (Cons c cs)
  from Cons.prems have c: "0 \<le> c" "c < int (length ps)"
    and r: "addToCells b cs (ps[nat c := set_add b (ps ! nat c)]) = Some ps'"
    by (auto split: if_splits)
  from Cons.IH [OF r] c show ?case
    by (auto simp add: nth_list_update set_add_idem)
qed

lemma removeFromCells_Some:
  "removeFromCells b cs ps = Some ps' \<Longrightarrow>
     length ps' = length ps \<and> (\<forall>c \<in> set cs. 0 \<le> c \<and> c < int (length ps)) \<and>
     (\<forall>k < length ps. ps' ! k = (if int k \<in> set cs then set_delete b (ps ! k) else ps ! k))"
proof (induction cs arbitrary: ps)
  case Nil
  then show ?case by simp
next
  case (Cons c cs)
  from Cons.prems have c: "0 \<le> c" "c < int (length ps)"
    and r: "removeFromCells b cs (ps[nat c := set_delete b (ps ! nat c)]) = Some ps'"
    by (auto split: if_splits)
  from Cons.IH [OF r] c show ?case
    by (auto simp add: nth_list_update set_delete_idem)
qed

lemma addToCells_total:
  "\<forall>c \<in> set cs. 0 \<le> c \<and> c < int (length ps) \<Longrightarrow> \<exists>ps'. addToCells b cs ps = Some ps'"
  by (induction cs arbitrary: ps) auto

lemma removeFromCells_total:
  "\<forall>c \<in> set cs. 0 \<le> c \<and> c < int (length ps) \<Longrightarrow> \<exists>ps'. removeFromCells b cs ps = Some ps'"
  by (induction cs arbitrary: ps) auto

lemma collectCells_total:
  "\<forall>c \<in> set cs. 0 \<le> c \<and> c < int (length ps) \<Longrightarrow> \<exists>bs. collectCells cs ps = Some bs"
  by (induction cs) auto

lemma collectCells_Some:
  "collectCells cs ps = Some bs \<Longrightarrow> set bs = (\<Union>c \<in> set cs. set (ps ! nat c))"
  by (induction cs arbitrary: bs) (auto split: if_splits option.splits)


lemma getCellsInAABB_partitions [simp]:
  "getCellsInAABB (g\<lparr>partitions := ps\<rparr>) box = getCellsInAABB g box"
  by (simp add: getCellsInAABB_def worldToCell_def)

text \<open>
  C7. On a grid as the constructor builds it, \<^verbatim>\<open>grid.addBody(b)\<close> followed by
  \<^verbatim>\<open>grid.removeBody(b)\<close>, with the body's AABB untouched in between and \<open>b\<close> in no
  partition before, both complete, leave every partition free of \<open>b\<close> (indeed all
  partitions as they were) and leave \<open>isInGrid\<close> false.
\<close>

theorem addBody_removeBody_roundtrip:
  assumes wf: "wf_grid g" and fresh: "\<not> resident g b"
  shows "\<exists>g1 h1 g2 h2.
           SpatialGrid_addBody g h b = Some (g1, h1) \<and>
           SpatialGrid_removeBody g1 h1 b = Some (g2, h2) \<and>
           \<not> resident g2 b \<and> \<not> isInGrid (h2 b) \<and> partitions g2 = partitions g"
proof -
  let ?cs = "getCellsInAABB g (aabb (h b))"
  let ?ps = "partitions g"
  have rng: "\<forall>c \<in> set ?cs. 0 \<le> c \<and> c < int (length ?ps)"
    using getCellsInAABB_range [OF wf] by blast
  from addToCells_total [OF rng] obtain ps1 where a: "addToCells b ?cs ?ps = Some ps1"
    by blast
  note A = addToCells_Some [OF a]
  from A rng have rng1: "\<forall>c \<in> set ?cs. 0 \<le> c \<and> c < int (length ps1)" by simp
  from removeFromCells_total [OF rng1] obtain ps2 where r: "removeFromCells b ?cs ps1 = Some ps2"
    by blast
  note R = removeFromCells_Some [OF r]
  have eq: "ps2 = ?ps"
  proof (rule nth_equalityI)
    show "length ps2 = length ?ps" using A R by simp
  next
    fix k assume "k < length ps2"
    then have k: "k < length ?ps" using A R by simp
    then have "b \<notin> set (?ps ! k)" using fresh by (auto simp add: resident_def)
    then show "ps2 ! k = ?ps ! k" using A R k by (simp add: set_delete_set_add)
  qed
  let ?g1 = "g\<lparr>partitions := ps1\<rparr>" and ?h1 = "h(b := (h b)\<lparr>isInGrid := True\<rparr>)"
  let ?g2 = "?g1\<lparr>partitions := ps2\<rparr>" and ?h2 = "?h1(b := (?h1 b)\<lparr>isInGrid := False\<rparr>)"
  have 1: "SpatialGrid_addBody g h b = Some (?g1, ?h1)"
    using a by (simp add: SpatialGrid_addBody_def)
  have 2: "SpatialGrid_removeBody ?g1 ?h1 b = Some (?g2, ?h2)"
    using r by (simp add: SpatialGrid_removeBody_def)
  have 3: "\<not> resident ?g2 b" using fresh eq by (simp add: resident_def)
  have 4: "\<not> isInGrid (?h2 b)" by simp
  have 5: "partitions ?g2 = partitions g" using eq by simp
  from 1 2 3 4 5 show ?thesis by blast
qed

theorem addBody_removeBody_roundtrip_witness:
  "wf_grid exGrid1 \<and> \<not> resident exGrid1 0 \<and>
   (\<exists>g1 h1 g2 h2.
      SpatialGrid_addBody exGrid1 (heap exSim) 0 = Some (g1, h1) \<and>
      SpatialGrid_removeBody g1 h1 0 = Some (g2, h2) \<and>
      \<not> resident g2 0 \<and> \<not> isInGrid (h2 0) \<and> partitions g2 = partitions exGrid1)"
proof -
  have 1: "wf_grid exGrid1" by (simp add: wf_grid_def exGrid1_def)
  have 2: "\<not> resident exGrid1 0" by (simp add: resident_def exGrid1_def)
  from 1 2 addBody_removeBody_roundtrip [OF 1 2, of "heap exSim"] show ?thesis by blast
qed

subsection \<open>Pair generation\<close>

lemma emitPairs_pairs:
  "emitPairs a bs h acc = (h', acc') \<Longrightarrow>
     set acc' \<subseteq> set acc \<union> {\<lparr>Pair.bodyA = a, Pair.bodyB = b\<rparr> | b. b \<in> set bs}"
proof (induction bs arbitrary: h acc)
  case Nil
  then show ?case by simp
next
  case (Cons b bs)
  show ?case
  proof (cases "idNum (h a) = internalLastPairId (h b)")
    case True
    with Cons.prems have "emitPairs a bs h acc = (h', acc')" by simp
    from Cons.IH [OF this] show ?thesis by auto
  next
    case False
    with Cons.prems have "emitPairs a bs (h(b := (h b)\<lparr>internalLastPairId := idNum (h a)\<rparr>))
             (acc @ [\<lparr>Pair.bodyA = a, Pair.bodyB = b\<rparr>]) = (h', acc')" by simp
    from Cons.IH [OF this] show ?thesis by auto
  qed
qed

lemma removeBody_then_query:
  assumes r: "SpatialGrid_removeBody g h a = Some (g1, h1)"
    and q: "queryAABB g1 (aabb (h1 a)) = Some bs"
  shows "a \<notin> set bs"
proof -
  let ?cs = "getCellsInAABB g (aabb (h a))"
  from r obtain ps1 where ps1: "removeFromCells a ?cs (partitions g) = Some ps1"
    and g1: "g1 = g\<lparr>partitions := ps1\<rparr>" and h1: "h1 = h(a := (h a)\<lparr>isInGrid := False\<rparr>)"
    by (auto simp add: SpatialGrid_removeBody_def split: option.splits)
  note R = removeFromCells_Some [OF ps1]
  from q g1 h1 have c: "collectCells ?cs ps1 = Some bs"
    by (simp add: queryAABB_def)
  have "a \<notin> set (ps1 ! nat c)" if "c \<in> set ?cs" for c
  proof -
    from R that have "0 \<le> c" "nat c < length (partitions g)" by auto
    with R that show ?thesis by (simp add: set_delete_notin)
  qed
  with collectCells_Some [OF c] show ?thesis by auto
qed

lemma visitPartition_distinct:
  "visitPartition as g h acc = Some (g', h', acc') \<Longrightarrow> pairsDistinct acc \<Longrightarrow> pairsDistinct acc'"
proof (induction as arbitrary: g h acc)
  case Nil
  then show ?case by simp
next
  case (Cons a as)
  show ?case
  proof (cases "isSleeping (h a)")
    case True
    with Cons.prems(1) have "visitPartition as g h acc = Some (g', h', acc')" by simp
    from Cons.IH [OF this Cons.prems(2)] show ?thesis .
  next
    case False
    with Cons.prems(1) obtain g1 h1 bs h2 acc2 where
      r: "SpatialGrid_removeBody g h a = Some (g1, h1)" and
      q: "queryAABB g1 (aabb (h1 a)) = Some bs" and
      e: "emitPairs a bs h1 acc = (h2, acc2)" and
      v: "visitPartition as g1 h2 acc2 = Some (g', h', acc')"
      by (auto split: option.splits prod.splits)
    from removeBody_then_query [OF r q] have "a \<notin> set bs" .
    with emitPairs_pairs [OF e] Cons.prems(2) have "pairsDistinct acc2"
      by (auto simp add: pairsDistinct_def)
    from Cons.IH [OF v this] show ?thesis .
  qed
qed

lemma visitPartitions_distinct:
  "visitPartitions is g h acc = Some (g', h', acc') \<Longrightarrow> pairsDistinct acc \<Longrightarrow> pairsDistinct acc'"
proof (induction "is" arbitrary: g h acc)
  case Nil
  then show ?case by simp
next
  case (Cons i "is")
  from Cons.prems(1) obtain g1 h1 acc1 where
    v: "visitPartition (partitions g ! i) g h acc = Some (g1, h1, acc1)" and
    w: "visitPartitions is g1 h1 acc1 = Some (g', h', acc')"
    by (auto split: option.splits)
  from Cons.IH [OF w visitPartition_distinct [OF v Cons.prems(2)]] show ?case .
qed

text \<open>
  C10. Every pair \<^verbatim>\<open>generatePairs\<close> emits has two different bodies, for every grid,
  store and body set: the visited body is deleted from the cells of its AABB just
  before those same cells are queried.
\<close>

theorem generatePairs_distinct_bodies:
  "generatePairs g h bs = Some (g', h', ps) \<Longrightarrow> p \<in> set ps \<Longrightarrow> Pair.bodyA p \<noteq> Pair.bodyB p"
proof -
  assume gp: "generatePairs g h bs = Some (g', h', ps)" and p: "p \<in> set ps"
  from gp obtain g1 h1 where
    "visitPartitions [0..<length (partitions g1)] g1 h1 [] = Some (g', h', ps)"
    by (auto simp add: generatePairs_def split: option.splits)
  from visitPartitions_distinct [OF this] have "pairsDistinct ps"
    by (simp add: pairsDistinct_def)
  with p show ?thesis by (simp add: pairsDistinct_def)
qed


lemma wf_grid_partitions:
  "wf_grid g \<Longrightarrow> length ps = length (partitions g) \<Longrightarrow> wf_grid (g\<lparr>partitions := ps\<rparr>)"
  by (simp add: wf_grid_def)

lemma addBody_total:
  assumes wf: "wf_grid g"
  shows "\<exists>g1 h1. SpatialGrid_addBody g h b = Some (g1, h1) \<and> wf_grid g1"
proof -
  have "\<forall>c \<in> set (getCellsInAABB g (aabb (h b))). 0 \<le> c \<and> c < int (length (partitions g))"
    using getCellsInAABB_range [OF wf] by blast
  from addToCells_total [OF this] obtain ps1
    where a: "addToCells b (getCellsInAABB g (aabb (h b))) (partitions g) = Some ps1" by blast
  from addToCells_Some [OF a] wf have "wf_grid (g\<lparr>partitions := ps1\<rparr>)"
    by (simp add: wf_grid_partitions)
  with a show ?thesis by (simp add: SpatialGrid_addBody_def)
qed

lemma removeBody_total:
  assumes wf: "wf_grid g"
  shows "\<exists>g1 h1. SpatialGrid_removeBody g h b = Some (g1, h1) \<and> wf_grid g1"
proof -
  have "\<forall>c \<in> set (getCellsInAABB g (aabb (h b))). 0 \<le> c \<and> c < int (length (partitions g))"
    using getCellsInAABB_range [OF wf] by blast
  from removeFromCells_total [OF this] obtain ps1
    where a: "removeFromCells b (getCellsInAABB g (aabb (h b))) (partitions g) = Some ps1" by blast
  from removeFromCells_Some [OF a] wf have "wf_grid (g\<lparr>partitions := ps1\<rparr>)"
    by (simp add: wf_grid_partitions)
  with a show ?thesis by (simp add: SpatialGrid_removeBody_def)
qed

lemma queryAABB_total:
  assumes wf: "wf_grid g"
  shows "\<exists>bs. queryAABB g box = Some bs"
  unfolding queryAABB_def
  using getCellsInAABB_range [OF wf] by (intro collectCells_total) blast

lemma resetAndInsert_total:
  "wf_grid g \<Longrightarrow> \<exists>g1 h1. resetAndInsert bs g h = Some (g1, h1) \<and> wf_grid g1"
proof (induction bs arbitrary: g h)
  case Nil
  then show ?case by simp
next
  case (Cons b bs)
  let ?h1 = "h(b := (h b)\<lparr>internalLastPairId := - 1\<rparr>)"
  show ?case
  proof (cases "isInGrid (?h1 b)")
    case True
    then have "resetAndInsert (b # bs) g h = resetAndInsert bs g ?h1"
      by (simp add: Let_def)
    with Cons.IH [OF Cons.prems, of ?h1] show ?thesis by (simp only:)
  next
    case False
    from addBody_total [OF Cons.prems, of ?h1 b] obtain g2 h2
      where a: "SpatialGrid_addBody g ?h1 b = Some (g2, h2)" and wf2: "wf_grid g2" by blast
    from False a have "resetAndInsert (b # bs) g h = resetAndInsert bs g2 h2"
      by (simp add: Let_def)
    with Cons.IH [OF wf2, of h2] show ?thesis by (simp only:)
  qed
qed

lemma visitPartition_total:
  "wf_grid g \<Longrightarrow> \<exists>g1 h1 acc1. visitPartition as g h acc = Some (g1, h1, acc1) \<and> wf_grid g1"
proof (induction as arbitrary: g h acc)
  case Nil
  then show ?case by simp
next
  case (Cons a as)
  show ?case
  proof (cases "isSleeping (h a)")
    case True
    with Cons.IH [OF Cons.prems, of h acc] show ?thesis by simp
  next
    case False
    from removeBody_total [OF Cons.prems, of h a] obtain g1 h1
      where r: "SpatialGrid_removeBody g h a = Some (g1, h1)" and wf1: "wf_grid g1" by blast
    from queryAABB_total [OF wf1, of "aabb (h1 a)"] obtain bs
      where q: "queryAABB g1 (aabb (h1 a)) = Some bs" by blast
    obtain h2 acc2 where e: "emitPairs a bs h1 acc = (h2, acc2)" by (cases "emitPairs a bs h1 acc")
    from Cons.IH [OF wf1, of h2 acc2] False r q e show ?thesis by simp
  qed
qed

lemma visitPartitions_total:
  "wf_grid g \<Longrightarrow> \<exists>g1 h1 acc1. visitPartitions is g h acc = Some (g1, h1, acc1) \<and> wf_grid g1"
proof (induction "is" arbitrary: g h acc)
  case Nil
  then show ?case by simp
next
  case (Cons i "is")
  from visitPartition_total [OF Cons.prems, of "partitions g ! i" h acc] obtain g1 h1 acc1
    where v: "visitPartition (partitions g ! i) g h acc = Some (g1, h1, acc1)"
      and wf1: "wf_grid g1" by blast
  from Cons.IH [OF wf1, of h1 acc1] v show ?case by simp
qed

lemma generatePairs_total:
  assumes wf: "wf_grid g"
  shows "\<exists>g1 h1 ps. generatePairs g h bs = Some (g1, h1, ps) \<and> wf_grid g1"
proof -
  from resetAndInsert_total [OF wf, of bs h] obtain g1 h1
    where r: "resetAndInsert bs g h = Some (g1, h1)" and wf1: "wf_grid g1" by blast
  from visitPartitions_total [OF wf1, of "[0..<length (partitions g1)]" h1 "[]"] r
  show ?thesis by (simp add: generatePairs_def)
qed

theorem generatePairs_distinct_bodies_witness:
  "\<exists>g' h'. generatePairs exGrid1 (heap exSim) [0, 1] =
             Some (g', h', [\<lparr>Pair.bodyA = 0, Pair.bodyB = 1\<rparr>])
           \<and> Pair.bodyA \<lparr>Pair.bodyA = 0, Pair.bodyB = 1\<rparr> \<noteq> Pair.bodyB \<lparr>Pair.bodyA = 0, Pair.bodyB = 1\<rparr>"
proof -
  have "\<exists>g' h'. generatePairs exGrid1 (heap exSim) [0, 1] =
             Some (g', h', [\<lparr>Pair.bodyA = 0, Pair.bodyB = 1\<rparr>])"
    by (simp add: ex_defs grid_defs Let_def)
  then obtain g' h' where gp: "generatePairs exGrid1 (heap exSim) [0, 1] =
             Some (g', h', [\<lparr>Pair.bodyA = 0, Pair.bodyB = 1\<rparr>])" by blast
  from generatePairs_distinct_bodies [OF gp, of "\<lparr>Pair.bodyA = 0, Pair.bodyB = 1\<rparr>"] gp
  show ?thesis by simp
qed

subsection \<open>Grid membership and the world's body set\<close>

lemmas ex2_defs = exGrid2_def exHeap2_def exResident_def flagMatchesPresence_def resident_def
  moveTo_def

text \<open>
  C2. The claim is that \<open>isInGrid\<close> equals presence in the partitions at all times
  and that \<^verbatim>\<open>addBody\<close>, \<^verbatim>\<open>removeBody\<close> and \<^verbatim>\<open>generatePairs\<close> preserve this.
  \<^verbatim>\<open>removeBody\<close> deletes the body from the cells of its current AABB only. In the
  example the flag matches presence for every body at the start, after body 0 has
  been inserted into the left cell, and after it has moved to (13,3) and the broad
  phase has recomputed its AABB; then \<^verbatim>\<open>removeBody\<close>, and likewise
  \<^verbatim>\<open>generatePairs\<close>, clears the flag and leaves body 0 in the left cell.
\<close>

theorem removeBody_leaves_stale_member:
  "flagMatchesPresence exGrid2 exHeap2
   \<and> (case SpatialGrid_addBody exGrid2 (updateAABBs [0] exHeap2) 0 of
         None \<Rightarrow> False
       | Some (g1, h1) \<Rightarrow>
           flagMatchesPresence g1 h1
           \<and> flagMatchesPresence g1 (updateAABBs [0] (moveTo 0 \<lparr>x = 13, y = 3\<rparr> h1))
           \<and> (case SpatialGrid_removeBody g1 (updateAABBs [0] (moveTo 0 \<lparr>x = 13, y = 3\<rparr> h1)) 0 of
                 None \<Rightarrow> False
               | Some (g2, h2) \<Rightarrow>
                   partitions g2 = [[0], []] \<and> \<not> isInGrid (h2 0) \<and> \<not> flagMatchesPresence g2 h2)
           \<and> (case generatePairs g1 (updateAABBs [0] (moveTo 0 \<lparr>x = 13, y = 3\<rparr> h1)) [0] of
                 None \<Rightarrow> False
               | Some (g2, h2, ps) \<Rightarrow>
                   partitions g2 = [[0], []] \<and> \<not> isInGrid (h2 0) \<and> \<not> flagMatchesPresence g2 h2))"
proof -
  have 0: "flagMatchesPresence exGrid2 exHeap2"
    by (simp add: ex2_defs ex_defs)
  have a: "SpatialGrid_addBody exGrid2 (updateAABBs [0] exHeap2) 0 =
            Some (exGrid2\<lparr>partitions := [[0], []]\<rparr>,
                  (updateAABBs [0] exHeap2)(0 := (updateAABBs [0] exHeap2 0)\<lparr>isInGrid := True\<rparr>))"
    by (simp add: ex2_defs ex_defs grid_defs Let_def)
  let ?g1 = "exGrid2\<lparr>partitions := [[0], []]\<rparr>"
  let ?h1 = "(updateAABBs [0] exHeap2)(0 := (updateAABBs [0] exHeap2 0)\<lparr>isInGrid := True\<rparr>)"
  let ?h2 = "updateAABBs [0] (moveTo 0 \<lparr>x = 13, y = 3\<rparr> ?h1)"
  have 1: "flagMatchesPresence ?g1 ?h1"
    by (simp add: ex2_defs ex_defs)
  have 2: "flagMatchesPresence ?g1 ?h2"
    by (simp add: ex2_defs ex_defs)
  have 3: "case SpatialGrid_removeBody ?g1 ?h2 0 of
                 None \<Rightarrow> False
               | Some (g2, h2) \<Rightarrow>
                   partitions g2 = [[0], []] \<and> \<not> isInGrid (h2 0) \<and> \<not> flagMatchesPresence g2 h2"
    by (simp add: ex2_defs ex_defs grid_defs Let_def)
  have 4: "case generatePairs ?g1 ?h2 [0] of
                 None \<Rightarrow> False
               | Some (g2, h2, ps) \<Rightarrow>
                   partitions g2 = [[0], []] \<and> \<not> isInGrid (h2 0) \<and> \<not> flagMatchesPresence g2 h2"
    by (simp add: ex2_defs ex_defs grid_defs Let_def)
  from 0 1 2 3 4 show ?thesis by (simp only: a option.case prod.case simp_thms)
qed

text \<open>
  C6. \<^verbatim>\<open>World.addBody\<close> binds the body's world reference to this world. The claim
  that \<^verbatim>\<open>World.removeBody\<close> unbinds it fails: it assigns this world again, for
  every world, body and state, so after add and remove the reference is still set.
\<close>

theorem World_removeBody_rebinds:
  "world (heap (World_addBody this body s) body) = Some this
   \<and> world (heap (World_removeBody this body s) body) = Some this
   \<and> world (heap (World_removeBody this body (World_addBody this body s)) body) \<noteq> None"
  by (simp add: World_addBody_def World_removeBody_def)

text \<open>
  C8. \<^verbatim>\<open>World.removeBody\<close> changes the body's world reference and the world's body
  set and nothing else: the grid, the body's \<open>isInGrid\<close> flag and its presence in the
  partitions are as before. A body removed while resident can still be emitted: in
  the example body 0 is resident (as after \<^verbatim>\<open>grid.addBody\<close>), is removed from the
  world, and the next broad phase of that world emits the pair of body 0 and body 1.
\<close>

theorem World_removeBody_frame:
  "heap (World_removeBody this body s) = (heap s)(body := (heap s body)\<lparr>world := Some this\<rparr>)
   \<and> worlds (World_removeBody this body s) =
       (worlds s)(this := (worlds s this)\<lparr>bodies := set_delete body (bodies (worlds s this))\<rparr>)
   \<and> grid (worlds (World_removeBody this body s) this) = grid (worlds s this)
   \<and> isInGrid (heap (World_removeBody this body s) body) = isInGrid (heap s body)
   \<and> resident (grid (worlds (World_removeBody this body s) this)) body
       = resident (grid (worlds s this)) body
   \<and> SpatialGrid_addBody (grid (worlds exSim 0)) (heap exSim) 0 =
       Some (grid (worlds exResident 0), heap exResident)
   \<and> resident (grid (worlds exResident 0)) 0
   \<and> 0 \<notin> set (bodies (worlds (World_removeBody 0 0 exResident) 0))
   \<and> map_option (\<lambda>(W, h). collisionPairs W)
        (stepBroadPhase 0.016 (worlds (World_removeBody 0 0 exResident) 0)
           (heap (World_removeBody 0 0 exResident)))
       = Some [\<lparr>Pair.bodyA = 0, Pair.bodyB = 1\<rparr>]"
proof (intro conjI)
  show "map_option (\<lambda>(W, h). collisionPairs W)
        (stepBroadPhase 0.016 (worlds (World_removeBody 0 0 exResident) 0)
           (heap (World_removeBody 0 0 exResident)))
       = Some [\<lparr>Pair.bodyA = 0, Pair.bodyB = 1\<rparr>]"
    by (simp add: ex2_defs ex_defs grid_defs World_removeBody_def stepBroadPhase_def Let_def)
next
  show "SpatialGrid_addBody (grid (worlds exSim 0)) (heap exSim) 0 =
       Some (grid (worlds exResident 0), heap exResident)"
    by (simp add: ex2_defs ex_defs grid_defs Let_def)
qed (simp_all add: World_removeBody_def ex2_defs ex_defs set_delete_def)

subsection \<open>Narrow phase\<close>

lemma sqrt_9_4: "sqrt (9 / 4) = 3 / 2"
  by (rule real_sqrt_unique) (simp_all add: power2_eq_square)

text \<open>
  C3. For a candidate pair whose shapes are both circles, the narrow phase appends a
  contact exactly when the centre distance is strictly below \<open>rA + rB\<close>; the contact
  has the normalised vector from A to B as normal, \<open>rA + rB - distance\<close> as
  penetration and \<open>posA + normal * rA\<close> as point, and both bodies are woken.
  Otherwise nothing changes. Circles of radius 1 at (0,0) and (1.5,0) give
  penetration 0.5 and normal (1,0) and wake the sleeping body; at (0,0) and (3,0)
  they give no contact.
\<close>

theorem narrowPair_circles:
  "(shape (h (Pair.bodyA p)) = Circle rA \<and> shape (h (Pair.bodyB p)) = Circle rB \<longrightarrow>
      narrowPair p h cs =
        (let a = Pair.bodyA p; b = Pair.bodyB p;
             posA = position (h a); posB = position (h b);
             distance = sqrt ((x posA - x posB)\<^sup>2 + (y posA - y posB)\<^sup>2);
             n = normalize \<lparr>x = x posB - x posA, y = y posB - y posA\<rparr>
         in if distance < rA + rB
            then (\<lambda>r. if r = a \<or> r = b then (h r)\<lparr>isSleeping := False\<rparr> else h r,
                  cs @ [\<lparr>Contact.bodyA = a, Contact.bodyB = b, normal = n,
                         penetration = rA + rB - distance,
                         point = \<lparr>x = x posA + x n * rA, y = y posA + y n * rA\<rparr>\<rparr>])
            else (h, cs)))
   \<and> snd (narrowPair \<lparr>Pair.bodyA = 0, Pair.bodyB = 1\<rparr> exCircles []) =
         [\<lparr>Contact.bodyA = 0, Contact.bodyB = 1, normal = \<lparr>x = 1, y = 0\<rparr>,
           penetration = 0.5, point = \<lparr>x = 1, y = 0\<rparr>\<rparr>]
   \<and> \<not> isSleeping (fst (narrowPair \<lparr>Pair.bodyA = 0, Pair.bodyB = 1\<rparr> exCircles []) 0)
   \<and> \<not> isSleeping (fst (narrowPair \<lparr>Pair.bodyA = 0, Pair.bodyB = 1\<rparr> exCircles []) 1)
   \<and> narrowPair \<lparr>Pair.bodyA = 0, Pair.bodyB = 1\<rparr> exApart [] = (exApart, [])"
proof (intro conjI impI)
  assume "shape (h (Pair.bodyA p)) = Circle rA \<and> shape (h (Pair.bodyB p)) = Circle rB"
  then show "narrowPair p h cs =
        (let a = Pair.bodyA p; b = Pair.bodyB p;
             posA = position (h a); posB = position (h b);
             distance = sqrt ((x posA - x posB)\<^sup>2 + (y posA - y posB)\<^sup>2);
             n = normalize \<lparr>x = x posB - x posA, y = y posB - y posA\<rparr>
         in if distance < rA + rB
            then (\<lambda>r. if r = a \<or> r = b then (h r)\<lparr>isSleeping := False\<rparr> else h r,
                  cs @ [\<lparr>Contact.bodyA = a, Contact.bodyB = b, normal = n,
                         penetration = rA + rB - distance,
                         point = \<lparr>x = x posA + x n * rA, y = y posA + y n * rA\<rparr>\<rparr>])
            else (h, cs))"
    by (auto simp add: narrowPair_def Let_def wakeUp_def fun_eq_iff)
next
  show "snd (narrowPair \<lparr>Pair.bodyA = 0, Pair.bodyB = 1\<rparr> exCircles []) =
         [\<lparr>Contact.bodyA = 0, Contact.bodyB = 1, normal = \<lparr>x = 1, y = 0\<rparr>,
           penetration = 0.5, point = \<lparr>x = 1, y = 0\<rparr>\<rparr>]"
    by (simp add: narrowPair_def exCircles_def PhysicsBody_new_def Let_def normalize_def
          lengthV_def sqrt_9_4)
  show "\<not> isSleeping (fst (narrowPair \<lparr>Pair.bodyA = 0, Pair.bodyB = 1\<rparr> exCircles []) 0)"
    by (simp add: narrowPair_def exCircles_def PhysicsBody_new_def Let_def wakeUp_def sqrt_9_4)
  show "\<not> isSleeping (fst (narrowPair \<lparr>Pair.bodyA = 0, Pair.bodyB = 1\<rparr> exCircles []) 1)"
    by (simp add: narrowPair_def exCircles_def PhysicsBody_new_def Let_def wakeUp_def sqrt_9_4)
  show "narrowPair \<lparr>Pair.bodyA = 0, Pair.bodyB = 1\<rparr> exApart [] = (exApart, [])"
    by (simp add: narrowPair_def exApart_def PhysicsBody_new_def Let_def)
qed

theorem narrowPair_circles_witness:
  "shape (exCircles 0) = Circle 1 \<and> shape (exCircles 1) = Circle 1
   \<and> narrowPair \<lparr>Pair.bodyA = 0, Pair.bodyB = 1\<rparr> exCircles [] =
       (\<lambda>r. if r = 0 \<or> r = 1 then (exCircles r)\<lparr>isSleeping := False\<rparr> else exCircles r,
        [\<lparr>Contact.bodyA = 0, Contact.bodyB = 1, normal = \<lparr>x = 1, y = 0\<rparr>,
          penetration = 0.5, point = \<lparr>x = 1, y = 0\<rparr>\<rparr>])"
proof -
  have s: "shape (exCircles (Pair.bodyA \<lparr>Pair.bodyA = 0, Pair.bodyB = 1\<rparr>)) = Circle 1
         \<and> shape (exCircles (Pair.bodyB \<lparr>Pair.bodyA = 0, Pair.bodyB = 1\<rparr>)) = Circle 1"
    by (simp add: exCircles_def PhysicsBody_new_def)
  have "narrowPair \<lparr>Pair.bodyA = 0, Pair.bodyB = 1\<rparr> exCircles [] =
       (\<lambda>r. if r = 0 \<or> r = 1 then (exCircles r)\<lparr>isSleeping := False\<rparr> else exCircles r,
        [\<lparr>Contact.bodyA = 0, Contact.bodyB = 1, normal = \<lparr>x = 1, y = 0\<rparr>,
          penetration = 0.5, point = \<lparr>x = 1, y = 0\<rparr>\<rparr>])"
    using narrowPair_circles [of exCircles "\<lparr>Pair.bodyA = 0, Pair.bodyB = 1\<rparr>" 1 1 "[]"] s
    by (simp add: Let_def exCircles_def PhysicsBody_new_def normalize_def lengthV_def sqrt_9_4)
  with s show ?thesis by simp
qed

lemma narrowPair_circleContact:
  "narrowPair p h cs =
     (case circleContact h p of
        None \<Rightarrow> (h, cs)
      | Some c \<Rightarrow> (\<lambda>r. if r = Pair.bodyA p \<or> r = Pair.bodyB p
                       then (h r)\<lparr>isSleeping := False\<rparr> else h r, cs @ [c]))"
  by (auto simp add: narrowPair_def circleContact_def Let_def wakeUp_def fun_eq_iff
        split: Shape.splits)

lemma circleContact_cong:
  "\<forall>r. position (h' r) = position (h r) \<and> shape (h' r) = shape (h r) \<Longrightarrow>
     circleContact h' p = circleContact h p"
  by (simp add: circleContact_def Let_def split: Shape.splits)

lemma touched_cong:
  "\<forall>r. position (h' r) = position (h r) \<and> shape (h' r) = shape (h r) \<Longrightarrow>
     touched h' ps = touched h ps"
  by (simp add: touched_def circleContact_cong [of h' h])

lemma narrowPhaseLoop_contacts:
  "narrowPhaseLoop ps h cs =
     (\<lambda>r. if r \<in> touched h ps then (h r)\<lparr>isSleeping := False\<rparr> else h r,
      cs @ List.map_filter (circleContact h) ps)"
proof (induction ps arbitrary: h cs)
  case Nil
  then show ?case by (simp add: touched_def)
next
  case (Cons p ps)
  show ?case
  proof (cases "circleContact h p")
    case None
    then have "narrowPair p h cs = (h, cs)" by (simp add: narrowPair_circleContact)
    moreover from None have "touched h (p # ps) = touched h ps"
      by (auto simp add: touched_def)
    ultimately show ?thesis using None Cons.IH [of h cs] by simp
  next
    case (Some c)
    let ?h1 = "\<lambda>r. if r = Pair.bodyA p \<or> r = Pair.bodyB p
                    then (h r)\<lparr>isSleeping := False\<rparr> else h r"
    have g: "\<forall>r. position (?h1 r) = position (h r) \<and> shape (?h1 r) = shape (h r)" by simp
    from Some have np: "narrowPair p h cs = (?h1, cs @ [c])"
      by (simp add: narrowPair_circleContact)
    from Some have t: "touched h (p # ps) = {Pair.bodyA p, Pair.bodyB p} \<union> touched h ps"
      by (auto simp add: touched_def)
    have cc: "circleContact ?h1 = circleContact h"
      using circleContact_cong [OF g] by (simp add: fun_eq_iff)
    have "narrowPhaseLoop (p # ps) h cs = narrowPhaseLoop ps ?h1 (cs @ [c])"
      using np by simp
    also have "\<dots> = (\<lambda>r. if r \<in> touched ?h1 ps then (?h1 r)\<lparr>isSleeping := False\<rparr> else ?h1 r,
                       (cs @ [c]) @ List.map_filter (circleContact ?h1) ps)"
      by (rule Cons.IH)
    also have "\<dots> = (\<lambda>r. if r \<in> touched h (p # ps) then (h r)\<lparr>isSleeping := False\<rparr> else h r,
                       cs @ List.map_filter (circleContact h) (p # ps))"
      using Some t by (auto simp add: touched_cong [OF g] cc fun_eq_iff)
    finally show ?thesis .
  qed
qed

lemma stepNarrowPhase_contacts:
  "stepNarrowPhase dt W h =
     (W\<lparr>contacts := contacts W @ List.map_filter (circleContact h) (collisionPairs W)\<rparr>,
      \<lambda>r. if r \<in> touched h (collisionPairs W) then (h r)\<lparr>isSleeping := False\<rparr> else h r)"
  by (simp add: stepNarrowPhase_def narrowPhaseLoop_contacts)

subsection \<open>Contact resolution\<close>

lemma fixPenetration_velocity:
  "velocity (fixPenetration c iA iB h r) = velocity (h r)"
  by (simp add: fixPenetration_def Let_def subPosition_def addPosition_def)

text \<open>
  C4. A contact between two static bodies changes nothing. Otherwise, when the
  relative velocity along the normal is not negative, no velocity changes, and the
  store is changed by the positional correction alone, with
  \<open>correction = max (penetration - 0.01) 0 / (invMassA + invMassB) * 0.2\<close> over the
  effective inverse masses (0 for a static body): a non-static A moves by
  \<open>- normal * correction * invMassA\<close>, then a non-static B by
  \<open>+ normal * correction * invMassB\<close>.
\<close>

theorem resolveContact_separating:
  "(isStatic (h (Contact.bodyA c)) \<and> isStatic (h (Contact.bodyB c)) \<longrightarrow> resolveContact c h = h)
   \<and> (\<not> (isStatic (h (Contact.bodyA c)) \<and> isStatic (h (Contact.bodyB c)))
       \<and> 0 \<le> dot \<lparr>x = x (velocity (h (Contact.bodyB c))) - x (velocity (h (Contact.bodyA c))),
                    y = y (velocity (h (Contact.bodyB c))) - y (velocity (h (Contact.bodyA c)))\<rparr>
                  (normal c)
       \<longrightarrow>
        (\<forall>r. velocity (resolveContact c h r) = velocity (h r))
        \<and> resolveContact c h =
           (let a = Contact.bodyA c; b = Contact.bodyB c;
                invMassA = (if isStatic (h a) then 0 else invMass (h a));
                invMassB = (if isStatic (h b) then 0 else invMass (h b));
                correction = max (penetration c - 0.01) 0 / (invMassA + invMassB) * 0.2;
                h1 = (if isStatic (h a) then h
                      else h(a := (h a)\<lparr>position :=
                             \<lparr>x = x (position (h a)) - x (normal c) * correction * invMassA,
                              y = y (position (h a)) - y (normal c) * correction * invMassA\<rparr>\<rparr>))
            in if isStatic (h b) then h1
               else h1(b := (h1 b)\<lparr>position :=
                      \<lparr>x = x (position (h1 b)) + x (normal c) * correction * invMassB,
                       y = y (position (h1 b)) + y (normal c) * correction * invMassB\<rparr>\<rparr>)))"
proof (intro conjI impI allI)
  assume "isStatic (h (Contact.bodyA c)) \<and> isStatic (h (Contact.bodyB c))"
  then show "resolveContact c h = h" by (simp add: resolveContact_def)
next
  fix r
  assume "\<not> (isStatic (h (Contact.bodyA c)) \<and> isStatic (h (Contact.bodyB c)))
       \<and> 0 \<le> dot \<lparr>x = x (velocity (h (Contact.bodyB c))) - x (velocity (h (Contact.bodyA c))),
                    y = y (velocity (h (Contact.bodyB c))) - y (velocity (h (Contact.bodyA c)))\<rparr>
                  (normal c)"
  then show "velocity (resolveContact c h r) = velocity (h r)"
    by (simp add: resolveContact_def Let_def fixPenetration_velocity)
next
  assume "\<not> (isStatic (h (Contact.bodyA c)) \<and> isStatic (h (Contact.bodyB c)))
       \<and> 0 \<le> dot \<lparr>x = x (velocity (h (Contact.bodyB c))) - x (velocity (h (Contact.bodyA c))),
                    y = y (velocity (h (Contact.bodyB c))) - y (velocity (h (Contact.bodyA c)))\<rparr>
                  (normal c)"
  then show "resolveContact c h =
           (let a = Contact.bodyA c; b = Contact.bodyB c;
                invMassA = (if isStatic (h a) then 0 else invMass (h a));
                invMassB = (if isStatic (h b) then 0 else invMass (h b));
                correction = max (penetration c - 0.01) 0 / (invMassA + invMassB) * 0.2;
                h1 = (if isStatic (h a) then h
                      else h(a := (h a)\<lparr>position :=
                             \<lparr>x = x (position (h a)) - x (normal c) * correction * invMassA,
                              y = y (position (h a)) - y (normal c) * correction * invMassA\<rparr>\<rparr>))
            in if isStatic (h b) then h1
               else h1(b := (h1 b)\<lparr>position :=
                      \<lparr>x = x (position (h1 b)) + x (normal c) * correction * invMassB,
                       y = y (position (h1 b)) + y (normal c) * correction * invMassB\<rparr>\<rparr>))"
    by (auto simp add: resolveContact_def fixPenetration_def Let_def subPosition_def
          addPosition_def)
qed

theorem resolveContact_separating_witness:
  "resolveContact exContact (exSeparating(1 := exStatic)) = exSeparating(1 := exStatic)
   \<and> position (resolveContact exContact exSeparating 1) = \<lparr>x = 6.198, y = 5\<rparr>
   \<and> position (resolveContact exContact exSeparating 0) = \<lparr>x = 5, y = 5\<rparr>
   \<and> velocity (resolveContact exContact exSeparating 1) = \<lparr>x = 1, y = 1\<rparr>"
proof -
  have 1: "resolveContact exContact (exSeparating(1 := exStatic)) = exSeparating(1 := exStatic)"
    using resolveContact_separating [of "exSeparating(1 := exStatic)" exContact]
    by (simp add: exSeparating_def exContact_def ex_defs)
  have 2: "resolveContact exContact exSeparating =
             exSeparating(1 := (exSeparating 1)\<lparr>position := \<lparr>x = 6.198, y = 5\<rparr>\<rparr>)
           \<and> (\<forall>r. velocity (resolveContact exContact exSeparating r) = velocity (exSeparating r))"
    using resolveContact_separating [of exSeparating exContact]
    by (simp add: exSeparating_def exContact_def ex_defs dot_def Let_def)
  from 2 have 3: "position (resolveContact exContact exSeparating 1) = \<lparr>x = 6.198, y = 5\<rparr>"
    "position (resolveContact exContact exSeparating 0) = \<lparr>x = 5, y = 5\<rparr>"
    "velocity (resolveContact exContact exSeparating 1) = \<lparr>x = 1, y = 1\<rparr>"
    by (simp_all add: exSeparating_def ex_defs)
  from 1 3 show ?thesis by simp
qed

subsection \<open>Static bodies across a frame\<close>

lemma staticFrame_refl: "staticFrame h h"
  by (simp add: staticFrame_def snapped_def)

lemma staticFrame_trans: "staticFrame h h1 \<Longrightarrow> staticFrame h1 h2 \<Longrightarrow> staticFrame h h2"
  unfolding staticFrame_def snapped_def by metis

lemma sameMotion_refl: "sameMotion h h"
  by (simp add: sameMotion_def)

lemma sameMotion_trans: "sameMotion h h1 \<Longrightarrow> sameMotion h1 h2 \<Longrightarrow> sameMotion h h2"
  by (simp add: sameMotion_def)

lemma sameMotion_staticFrame: "sameMotion h h' \<Longrightarrow> staticFrame h h'"
  by (simp add: sameMotion_def staticFrame_def snapped_def)

lemma updateAABBs_sameMotion: "sameMotion h (updateAABBs bs h)"
proof (induction bs arbitrary: h)
  case Nil
  show ?case by (simp add: sameMotion_refl)
next
  case (Cons b bs)
  let ?h1 = "case shape (h b) of
          Circle r \<Rightarrow>
            h(b := (h b)\<lparr>aabb :=
                 \<lparr>minP = \<lparr>x = x (position (h b)) - r, y = y (position (h b)) - r\<rparr>,
                  maxP = \<lparr>x = x (position (h b)) + r, y = y (position (h b)) + r\<rparr>\<rparr>\<rparr>)
        | OtherShape \<Rightarrow> h"
  have "sameMotion h ?h1" by (simp add: sameMotion_def split: Shape.splits)
  from sameMotion_trans [OF this Cons.IH [of ?h1]] show ?case by simp
qed

lemma addBody_sameMotion:
  "SpatialGrid_addBody g h b = Some (g1, h1) \<Longrightarrow> sameMotion h h1"
  by (auto simp add: SpatialGrid_addBody_def sameMotion_def split: option.splits if_splits)

lemma removeBody_sameMotion:
  "SpatialGrid_removeBody g h b = Some (g1, h1) \<Longrightarrow> sameMotion h h1"
  by (auto simp add: SpatialGrid_removeBody_def sameMotion_def split: option.splits if_splits)

lemma emitPairs_sameMotion:
  "emitPairs a bs h acc = (h', acc') \<Longrightarrow> sameMotion h h'"
proof (induction bs arbitrary: h acc)
  case Nil
  then show ?case by (simp add: sameMotion_refl)
next
  case (Cons b bs)
  show ?case
  proof (cases "idNum (h a) = internalLastPairId (h b)")
    case True
    with Cons.prems have "emitPairs a bs h acc = (h', acc')" by simp
    from Cons.IH [OF this] show ?thesis .
  next
    case False
    let ?h1 = "h(b := (h b)\<lparr>internalLastPairId := idNum (h a)\<rparr>)"
    from False Cons.prems have
      "emitPairs a bs ?h1 (acc @ [\<lparr>Pair.bodyA = a, Pair.bodyB = b\<rparr>]) = (h', acc')" by simp
    from Cons.IH [OF this] have "sameMotion ?h1 h'" .
    moreover have "sameMotion h ?h1" by (simp add: sameMotion_def)
    ultimately show ?thesis by (blast intro: sameMotion_trans)
  qed
qed

lemma resetAndInsert_sameMotion:
  "resetAndInsert bs g h = Some (g', h') \<Longrightarrow> sameMotion h h'"
proof (induction bs arbitrary: g h)
  case Nil
  then show ?case by (simp add: sameMotion_refl)
next
  case (Cons b bs)
  let ?h1 = "h(b := (h b)\<lparr>internalLastPairId := - 1\<rparr>)"
  have 1: "sameMotion h ?h1" by (simp add: sameMotion_def)
  show ?case
  proof (cases "isInGrid (?h1 b)")
    case True
    with Cons.prems have "resetAndInsert bs g ?h1 = Some (g', h')" by (simp add: Let_def)
    from sameMotion_trans [OF 1 Cons.IH [OF this]] show ?thesis .
  next
    case False
    with Cons.prems obtain g2 h2 where a: "SpatialGrid_addBody g ?h1 b = Some (g2, h2)"
      and r: "resetAndInsert bs g2 h2 = Some (g', h')"
      by (auto simp add: Let_def split: option.splits)
    from sameMotion_trans [OF sameMotion_trans [OF 1 addBody_sameMotion [OF a]] Cons.IH [OF r]]
    show ?thesis .
  qed
qed

lemma visitPartition_sameMotion:
  "visitPartition as g h acc = Some (g', h', acc') \<Longrightarrow> sameMotion h h'"
proof (induction as arbitrary: g h acc)
  case Nil
  then show ?case by (simp add: sameMotion_refl)
next
  case (Cons a as)
  show ?case
  proof (cases "isSleeping (h a)")
    case True
    with Cons.prems have "visitPartition as g h acc = Some (g', h', acc')" by simp
    from Cons.IH [OF this] show ?thesis .
  next
    case False
    with Cons.prems obtain g1 h1 bs h2 acc2 where
      r: "SpatialGrid_removeBody g h a = Some (g1, h1)" and
      e: "emitPairs a bs h1 acc = (h2, acc2)" and
      v: "visitPartition as g1 h2 acc2 = Some (g', h', acc')"
      by (auto split: option.splits prod.splits)
    from sameMotion_trans [OF sameMotion_trans [OF removeBody_sameMotion [OF r]
          emitPairs_sameMotion [OF e]] Cons.IH [OF v]]
    show ?thesis .
  qed
qed

lemma visitPartitions_sameMotion:
  "visitPartitions is g h acc = Some (g', h', acc') \<Longrightarrow> sameMotion h h'"
proof (induction "is" arbitrary: g h acc)
  case Nil
  then show ?case by (simp add: sameMotion_refl)
next
  case (Cons i "is")
  from Cons.prems obtain g1 h1 acc1 where
    v: "visitPartition (partitions g ! i) g h acc = Some (g1, h1, acc1)" and
    w: "visitPartitions is g1 h1 acc1 = Some (g', h', acc')"
    by (auto split: option.splits)
  from sameMotion_trans [OF visitPartition_sameMotion [OF v] Cons.IH [OF w]] show ?case .
qed

lemma generatePairs_sameMotion:
  "generatePairs g h bs = Some (g', h', ps) \<Longrightarrow> sameMotion h h'"
proof -
  assume "generatePairs g h bs = Some (g', h', ps)"
  then obtain g1 h1 where r: "resetAndInsert bs g h = Some (g1, h1)"
    and v: "visitPartitions [0..<length (partitions g1)] g1 h1 [] = Some (g', h', ps)"
    by (auto simp add: generatePairs_def split: option.splits)
  from sameMotion_trans [OF resetAndInsert_sameMotion [OF r] visitPartitions_sameMotion [OF v]]
  show ?thesis .
qed

lemma stepBroadPhase_sameMotion:
  "stepBroadPhase dt W h = Some (W1, h1) \<Longrightarrow> sameMotion h h1"
proof -
  assume "stepBroadPhase dt W h = Some (W1, h1)"
  then obtain g ps where "generatePairs (grid W) (updateAABBs (bodies W) h) (bodies W) = Some (g, h1, ps)"
    by (auto simp add: stepBroadPhase_def Let_def split: option.splits)
  from sameMotion_trans [OF updateAABBs_sameMotion generatePairs_sameMotion [OF this]]
  show ?thesis .
qed

lemma stepNarrowPhase_sameMotion:
  "stepNarrowPhase dt W h = (W1, h1) \<Longrightarrow> sameMotion h h1"
  by (auto simp add: stepNarrowPhase_contacts sameMotion_def split: if_splits)

lemma staticFrame_snapVelocity:
  "staticFrame h h0 \<Longrightarrow> staticFrame h (snapVelocity r h0)"
proof -
  have "staticFrame h0 (snapVelocity r h0)"
    by (simp add: staticFrame_def snapped_def snapVelocity_def Let_def)
  then show "staticFrame h h0 \<Longrightarrow> staticFrame h (snapVelocity r h0)"
    by (rule staticFrame_trans [rotated])
qed

lemma staticFrame_subVelocity:
  "staticFrame h h0 \<Longrightarrow>
     staticFrame h (if \<not> isStatic (h0 r) then subVelocity r dx dy h0 else h0)"
proof -
  have "staticFrame h0 (if \<not> isStatic (h0 r) then subVelocity r dx dy h0 else h0)"
    by (simp add: staticFrame_def snapped_def subVelocity_def)
  then show "staticFrame h h0 \<Longrightarrow> ?thesis"
    by (rule staticFrame_trans [rotated])
qed

lemma staticFrame_addVelocity:
  "staticFrame h h0 \<Longrightarrow>
     staticFrame h (if \<not> isStatic (h0 r) then addVelocity r dx dy h0 else h0)"
proof -
  have "staticFrame h0 (if \<not> isStatic (h0 r) then addVelocity r dx dy h0 else h0)"
    by (simp add: staticFrame_def snapped_def addVelocity_def)
  then show "staticFrame h h0 \<Longrightarrow> ?thesis"
    by (rule staticFrame_trans [rotated])
qed

lemma staticFrame_subPosition:
  "staticFrame h h0 \<Longrightarrow>
     staticFrame h (if \<not> isStatic (h0 r) then subPosition r dx dy h0 else h0)"
proof -
  have "staticFrame h0 (if \<not> isStatic (h0 r) then subPosition r dx dy h0 else h0)"
    by (simp add: staticFrame_def snapped_def subPosition_def)
  then show "staticFrame h h0 \<Longrightarrow> ?thesis"
    by (rule staticFrame_trans [rotated])
qed

lemma staticFrame_addPosition:
  "staticFrame h h0 \<Longrightarrow>
     staticFrame h (if \<not> isStatic (h0 r) then addPosition r dx dy h0 else h0)"
proof -
  have "staticFrame h0 (if \<not> isStatic (h0 r) then addPosition r dx dy h0 else h0)"
    by (simp add: staticFrame_def snapped_def addPosition_def)
  then show "staticFrame h h0 \<Longrightarrow> ?thesis"
    by (rule staticFrame_trans [rotated])
qed

lemma staticFrame_if:
  "staticFrame h h1 \<Longrightarrow> staticFrame h h2 \<Longrightarrow> staticFrame h (if c then h1 else h2)"
  by simp

lemmas staticFrame_intros = staticFrame_subVelocity staticFrame_addVelocity
  staticFrame_subPosition staticFrame_addPosition staticFrame_snapVelocity staticFrame_if
  staticFrame_refl

lemma staticFrame_fixPenetration:
  "staticFrame h h0 \<Longrightarrow> staticFrame h (fixPenetration c iA iB h0)"
  unfolding fixPenetration_def Let_def by (intro staticFrame_intros)

lemma staticFrame_resolveVelocity:
  "staticFrame h h0 \<Longrightarrow> staticFrame h (resolveVelocity c iA iB rv van h0)"
  unfolding resolveVelocity_def Let_def by (intro staticFrame_intros)

lemma staticFrame_resolveContact:
  "staticFrame h h0 \<Longrightarrow> staticFrame h (resolveContact c h0)"
  unfolding resolveContact_def Let_def
  by (intro staticFrame_fixPenetration staticFrame_resolveVelocity staticFrame_if)

lemma staticFrame_resolveLoop:
  "staticFrame h h0 \<Longrightarrow> staticFrame h (resolveLoop cs h0)"
  by (induction cs arbitrary: h0) (simp_all add: staticFrame_resolveContact)

lemma integrateLoop_staticFrame:
  "integrateLoop ws dt bs h = Some h' \<Longrightarrow> staticFrame h h'"
proof (induction bs arbitrary: h)
  case Nil
  then show ?case by (simp add: staticFrame_refl)
next
  case (Cons b bs)
  from Cons.prems obtain b' where i: "integrate ws dt (h b) = Some b'"
    and l: "integrateLoop ws dt bs (h(b := b')) = Some h'"
    by (auto split: option.splits)
  from i have "isStatic b' = isStatic (h b) \<and> (isStatic (h b) \<longrightarrow> b' = h b)"
    by (auto simp add: integrate_def Let_def sleepTick_def applyDrag_def applyGravity_def
          integrateVelocity_def split: if_splits option.splits)
  then have "staticFrame h (h(b := b'))"
    by (simp add: staticFrame_def snapped_def)
  from staticFrame_trans [OF this Cons.IH [OF l]] show ?case .
qed

lemma step_staticFrame:
  assumes "step this dt s = Some s'"
  shows "staticFrame (heap s) (heap s')"
proof -
  from assms obtain W1 h1 W2 h2 h5 where
    bp: "stepBroadPhase dt (worlds s this) (heap s) = Some (W1, h1)" and
    np: "stepNarrowPhase dt W1 h1 = (W2, h2)" and
    it: "stepIntegrate ((worlds s)(this := W2)) dt W2
           (stepResolveCollisions dt W2 (stepResolveStaticCollisions dt W2 h2)) = Some h5" and
    s': "heap s' = h5"
    by (auto simp add: step_def Let_def split: option.splits prod.splits)
  have 1: "staticFrame (heap s) h2"
    using sameMotion_trans [OF stepBroadPhase_sameMotion [OF bp] stepNarrowPhase_sameMotion [OF np]]
    by (rule sameMotion_staticFrame)
  have 2: "staticFrame (heap s) (stepResolveCollisions dt W2 (stepResolveStaticCollisions dt W2 h2))"
    using 1 by (simp add: stepResolveCollisions_def stepResolveStaticCollisions_def
        staticFrame_resolveLoop)
  from it have 3: "staticFrame (stepResolveCollisions dt W2 (stepResolveStaticCollisions dt W2 h2)) h5"
    by (simp add: stepIntegrate_def integrateLoop_staticFrame)
  from staticFrame_trans [OF 2 3] s' show ?thesis by simp
qed

lemma steps_staticFrame:
  "steps this dts s = Some s' \<Longrightarrow> staticFrame (heap s) (heap s')"
proof (induction dts arbitrary: s)
  case Nil
  then show ?case by (simp add: staticFrame_refl)
next
  case (Cons dt dts)
  from Cons.prems obtain s1 where a: "step this dt s = Some s1" and b: "steps this dts s1 = Some s'"
    by (auto split: option.splits)
  from staticFrame_trans [OF step_staticFrame [OF a] Cons.IH [OF b]] show ?case .
qed

text \<open>
  What does hold for every static body over any number of completed frames: it
  stays static and keeps its position, and each velocity component is either
  unchanged or has been set to 0.
\<close>

lemma steps_static_body:
  assumes "steps this dts s = Some s'" and "isStatic (heap s b)"
  shows "isStatic (heap s' b) \<and> position (heap s' b) = position (heap s b)
         \<and> (x (velocity (heap s' b)) = x (velocity (heap s b)) \<or> x (velocity (heap s' b)) = 0)
         \<and> (y (velocity (heap s' b)) = y (velocity (heap s b)) \<or> y (velocity (heap s' b)) = 0)"
  using steps_staticFrame [OF assms(1)] assms(2)
  by (simp add: staticFrame_def snapped_def)

text \<open>
  C1. The claim is that a static body's position and velocity are the same before
  and after any number of \<^verbatim>\<open>step\<close> calls. In the example world the static body 0
  has velocity (0.005, 0) and is hit by the dynamic body 1; one \<^verbatim>\<open>step(0.016)\<close>
  completes and leaves body 0 where it was but with velocity (0, 0): the snapping of
  small velocity components after the friction impulse is applied to both bodies of
  the contact without the static check that guards every other write.
\<close>

theorem static_body_velocity_snapped:
  "isStatic (heap exSim 0)
   \<and> 0 \<in> set (bodies (worlds exSim 0))
   \<and> position (heap exSim 0) = \<lparr>x = 5, y = 5\<rparr>
   \<and> velocity (heap exSim 0) = \<lparr>x = 0.005, y = 0\<rparr>
   \<and> map_option (\<lambda>s. (position (heap s 0), velocity (heap s 0))) (step 0 0.016 exSim)
       = Some (\<lparr>x = 5, y = 5\<rparr>, \<lparr>x = 0, y = 0\<rparr>)"
proof (intro conjI)
  show "map_option (\<lambda>s. (position (heap s 0), velocity (heap s 0))) (step 0 0.016 exSim)
       = Some (\<lparr>x = 5, y = 5\<rparr>, \<lparr>x = 0, y = 0\<rparr>)"
    apply (simp add: step_def ex_defs grid_defs stepBroadPhase_def
        stepResolveStaticCollisions_def Let_def)
    apply (simp add: stepNarrowPhase_def narrowPair_def Let_def wakeUp_def normalize_def
        lengthV_def)
    apply (simp add: stepResolveCollisions_def resolveContact_def Let_def dot_def)
    apply (simp add: resolveVelocity_def Let_def dot_def normalize_def lengthV_def
        subVelocity_def addVelocity_def)
    apply (simp add: snapVelocity_def Let_def)
    apply (simp add: fixPenetration_def Let_def addPosition_def subPosition_def)
    apply (simp add: stepIntegrate_def integrate_def sleep_defs Let_def)
    apply (simp add: applyDrag_def applyGravity_def integrateVelocity_def postStep_def)
    done
qed (simp_all add: ex_defs)

text \<open>\<^verbatim>\<open>applyForce\<close> leaves a static body as it is.\<close>

lemma applyForce_static: "isStatic b \<Longrightarrow> applyForce force b = b"
  by (simp add: applyForce_def)

subsection \<open>When the flag does follow presence\<close>

text \<open>
  \<^verbatim>\<open>addBody\<close> keeps the flag equal to presence when the AABB covers at least one
  cell; \<^verbatim>\<open>removeBody\<close> keeps it when every partition holding the body is among
  the cells of its current AABB.
\<close>

lemma set_set_add: "set (set_add b p) = insert b (set p)"
  by (auto simp add: set_add_def)

lemma set_set_delete: "set (set_delete b p) = set p - {b}"
  by (auto simp add: set_delete_def)

lemma resident_nth:
  "resident g r \<longleftrightarrow> (\<exists>k < length (partitions g). r \<in> set (partitions g ! k))"
  unfolding resident_def by (metis in_set_conv_nth)

lemma resident_cong:
  assumes "length (partitions g1) = length (partitions g)"
    and "\<And>k. k < length (partitions g) \<Longrightarrow>
           r \<in> set (partitions g1 ! k) \<longleftrightarrow> r \<in> set (partitions g ! k)"
  shows "resident g1 r = resident g r"
  using assms by (auto simp add: resident_nth)

lemma addBody_flagMatchesPresence:
  assumes a: "SpatialGrid_addBody g h b = Some (g1, h1)"
    and ne: "getCellsInAABB g (aabb (h b)) \<noteq> []"
    and inv: "flagMatchesPresence g h"
  shows "flagMatchesPresence g1 h1"
proof -
  let ?cs = "getCellsInAABB g (aabb (h b))"
  from a obtain ps1 where ps1: "addToCells b ?cs (partitions g) = Some ps1"
    and g1: "g1 = g\<lparr>partitions := ps1\<rparr>" and h1: "h1 = h(b := (h b)\<lparr>isInGrid := True\<rparr>)"
    by (auto simp add: SpatialGrid_addBody_def split: option.splits)
  note A = addToCells_Some [OF ps1]
  from ne obtain c where c: "c \<in> set ?cs" by (cases ?cs) auto
  with A have k: "nat c < length (partitions g)" "int (nat c) \<in> set ?cs" by auto
  with A have "ps1 ! nat c = set_add b (partitions g ! nat c)" by simp
  then have "b \<in> set (ps1 ! nat c)" by (simp add: set_set_add)
  with k(1) A g1 have rb: "resident g1 b" by (auto simp add: resident_nth)
  have "resident g1 r = resident g r" if "r \<noteq> b" for r
  proof (rule resident_cong)
    show "length (partitions g1) = length (partitions g)" using A g1 by simp
  next
    fix k assume "k < length (partitions g)"
    with A have "ps1 ! k = set_add b (partitions g ! k) \<or> ps1 ! k = partitions g ! k"
      by auto
    with that g1 show "r \<in> set (partitions g1 ! k) \<longleftrightarrow> r \<in> set (partitions g ! k)"
      by (auto simp add: set_set_add)
  qed
  with rb inv h1 show ?thesis by (simp add: flagMatchesPresence_def)
qed

lemma removeBody_flagMatchesPresence:
  assumes r: "SpatialGrid_removeBody g h b = Some (g1, h1)"
    and cover: "\<forall>k < length (partitions g).
                  b \<in> set (partitions g ! k) \<longrightarrow> int k \<in> set (getCellsInAABB g (aabb (h b)))"
    and inv: "flagMatchesPresence g h"
  shows "flagMatchesPresence g1 h1"
proof -
  let ?cs = "getCellsInAABB g (aabb (h b))"
  from r obtain ps1 where ps1: "removeFromCells b ?cs (partitions g) = Some ps1"
    and g1: "g1 = g\<lparr>partitions := ps1\<rparr>" and h1: "h1 = h(b := (h b)\<lparr>isInGrid := False\<rparr>)"
    by (auto simp add: SpatialGrid_removeBody_def split: option.splits)
  note R = removeFromCells_Some [OF ps1]
  have alt: "ps1 ! k = set_delete b (partitions g ! k) \<or> ps1 ! k = partitions g ! k"
    if "k < length (partitions g)" for k
    using R that by auto
  have "b \<notin> set (ps1 ! k)" if "k < length (partitions g)" for k
  proof (cases "int k \<in> set ?cs")
    case True
    with R that show ?thesis by (simp add: set_set_delete)
  next
    case False
    with cover that have "b \<notin> set (partitions g ! k)" by blast
    with R that False show ?thesis by simp
  qed
  with R g1 have rb: "\<not> resident g1 b" by (auto simp add: resident_nth)
  have "resident g1 r = resident g r" if "r \<noteq> b" for r
  proof (rule resident_cong)
    show "length (partitions g1) = length (partitions g)" using R g1 by simp
  next
    fix k assume "k < length (partitions g)"
    from alt [OF this] that g1
    show "r \<in> set (partitions g1 ! k) \<longleftrightarrow> r \<in> set (partitions g ! k)"
      by (auto simp add: set_set_delete)
  qed
  with rb inv h1 show ?thesis by (simp add: flagMatchesPresence_def)
qed

end
